theory Spec2Isabelle
  imports Main "HOL-Library.AList" "HOL-Library.Sublist"
begin

section \<open>The Memory Scramble board of src/board.ts\<close>

text \<open>
  The board of \<^verbatim>\<open>src/board.ts\<close> is a mutable object; here every method takes the board
  and returns the board it leaves behind, together with how the call ended.

  \<^item> A JavaScript string is a \<open>string\<close>; a character stands for one code unit below 256.
  \<^item> Row and column numbers are \<open>nat\<close>: \<^verbatim>\<open>requireInBounds\<close> refuses negative and fractional
    numbers before any field is read, so those inputs are outside the model's input type.
  \<^item> A JavaScript \<^verbatim>\<open>Map\<close> keeps its keys in insertion order and is an association list:
    \<^verbatim>\<open>get\<close> is \<open>map_of\<close>, \<^verbatim>\<open>set\<close> is \<open>AList.update\<close> (an existing key keeps its place, a new
    one goes to the end), \<^verbatim>\<open>delete\<close> is \<open>AList.delete\<close>.
  \<^item> The key \<^verbatim>\<open>`${row},${col}`\<close> of \<^verbatim>\<open>waitingForControl\<close> is the pair \<open>(row, col)\<close>.
  \<^item> A \<^verbatim>\<open>Deferred\<close> parked by rule 1-D is named by the player whose call awaits it; resolving
    it appends \<open>(player, row, col)\<close>, the call that will be retried, to the log \<open>woken\<close>.
  \<^item> A change watcher is named by a number; calling it with a rendered board appends the
    pair to the log \<open>delivered\<close>.
  \<^item> A thrown \<^verbatim>\<open>Error\<close> is a value of \<open>error\<close>; \<^verbatim>\<open>console.log\<close> is left out.
  \<^item> \<^verbatim>\<open>flipUp\<close> is modelled from its entry to its first real suspension (rule 1-D): the
    two \<^verbatim>\<open>await\<close>s on \<^verbatim>\<open>cleanupPreviousPlay\<close> are taken without another call running in
    between, the board being used by one call at a time. A parked call ends with the
    outcome \<open>Parked\<close>; when its \<^verbatim>\<open>Deferred\<close> is resolved the source calls \<^verbatim>\<open>flipUp\<close> again with the
    same arguments, which here is a new call.
\<close>

subsection \<open>Errors and outcomes\<close>

datatype error =
    InvalidPlayerId       \<comment> \<open>\<^verbatim>\<open>player id must be nonempty, no whitespace\<close>\<close>
  | OutOfBounds           \<comment> \<open>\<^verbatim>\<open>out of bounds\<close>\<close>
  | UnknownPlayer         \<comment> \<open>\<^verbatim>\<open>unknown player\<close>, \<^verbatim>\<open>player not found\<close>\<close>
  | InvalidRow            \<comment> \<open>\<^verbatim>\<open>invalid row\<close>\<close>
  | EmptySpace            \<comment> \<open>\<^verbatim>\<open>empty space\<close>\<close>
  | SameCardTwice         \<comment> \<open>\<^verbatim>\<open>cannot select the same card twice\<close>\<close>
  | Controlled            \<comment> \<open>\<^verbatim>\<open>card is controlled by another player\<close>\<close>
  | NoFirstCard           \<comment> \<open>\<^verbatim>\<open>internal error: no first card\<close>\<close>
  | AlreadyFaceDown       \<comment> \<open>\<^verbatim>\<open>already face down\<close>\<close>
  | RepInvariantViolated  \<comment> \<open>a failed \<^verbatim>\<open>assert\<close> of \<^verbatim>\<open>checkRep\<close>\<close>
  | InvalidFile           \<comment> \<open>\<^verbatim>\<open>empty file\<close>\<close>
  | MissingHeader         \<comment> \<open>\<^verbatim>\<open>missing header\<close>\<close>
  | InvalidHeader         \<comment> \<open>\<^verbatim>\<open>invalid header\<close>\<close>
  | InvalidDimensions     \<comment> \<open>\<^verbatim>\<open>invalid dimensions\<close>\<close>
  | WrongCardCount        \<comment> \<open>\<^verbatim>\<open>expected n cards, found m\<close>\<close>
  | InvalidCard nat       \<comment> \<open>\<^verbatim>\<open>invalid card at line n\<close>\<close>

datatype outcome =
    Done         \<comment> \<open>the call returned\<close>
  | Threw error  \<comment> \<open>the call threw\<close>
  | Parked       \<comment> \<open>the call awaits a \<^verbatim>\<open>Deferred\<close> (rule 1-D)\<close>

subsection \<open>Characters\<close>

definition LF :: char where "LF = CHR 0x0A"
definition CR :: char where "CR = CHR 0x0D"

text \<open>The class \<^verbatim>\<open>\s\<close> of a JavaScript regular expression, on code units below 256.\<close>

definition is_space :: "char \<Rightarrow> bool" where
  "is_space ch = (of_char ch \<in> {9, 10, 11, 12, 13, 32, 160 :: nat})"

text \<open>The class \<^verbatim>\<open>\d\<close>.\<close>

definition is_digit :: "char \<Rightarrow> bool" where
  "is_digit ch = (48 \<le> (of_char ch :: nat) \<and> (of_char ch :: nat) \<le> 57)"

text \<open>\<^verbatim>\<open>s.length === 0 || /\s/.test(s)\<close> is false: the contract of player ids and pictures.\<close>

definition valid_token :: "string \<Rightarrow> bool" where
  "valid_token s = (s \<noteq> [] \<and> \<not> list_ex is_space s)"

subsection \<open>Players\<close>

type_synonym pos = "nat \<times> nat"

text \<open>
  Modelled from the spec: the class \<^verbatim>\<open>Player\<close> of \<^verbatim>\<open>player.ts\<close>, which \<^verbatim>\<open>board.ts\<close> imports and
  which is not among the source files. The spec gives a Player an id, an optional first and
  second card and a flip count; \<^verbatim>\<open>isFirstCardFlip\<close> holds when no first card is recorded; a
  fresh Player has empty card slots and zero flips.
\<close>

record player =
  ident :: string
  firstCard :: "pos option"
  secondCard :: "pos option"
  flipCount :: nat

text \<open>
  Modelled from the spec: the constructor and the methods of \<^verbatim>\<open>Player\<close> that \<^verbatim>\<open>board.ts\<close> calls.
  Each setter records the one card its name says, \<^verbatim>\<open>recordFlip\<close> adds one to the flip count
  and \<^verbatim>\<open>clearCards\<close> empties both card slots.
\<close>

definition new_Player :: "string \<Rightarrow> player" where
  "new_Player i = \<lparr>ident = i, firstCard = None, secondCard = None, flipCount = 0\<rparr>"

definition isFirstCardFlip :: "player \<Rightarrow> bool" where
  "isFirstCardFlip p = (firstCard p = None)"

definition setFirstCard :: "pos \<Rightarrow> player \<Rightarrow> player" where
  "setFirstCard q p = p\<lparr>firstCard := Some q\<rparr>"

definition setSecondCard :: "pos \<Rightarrow> player \<Rightarrow> player" where
  "setSecondCard q p = p\<lparr>secondCard := Some q\<rparr>"

definition recordFlip :: "player \<Rightarrow> player" where
  "recordFlip p = p\<lparr>flipCount := flipCount p + 1\<rparr>"

definition clearCards :: "player \<Rightarrow> player" where
  "clearCards p = p\<lparr>firstCard := None, secondCard := None\<rparr>"

subsection \<open>The board\<close>

record board =
  rows :: nat
  cols :: nat
  cards :: "string option list list"
  faceUp :: "bool list list"
  controller :: "string option list list"
  players :: "(string \<times> player) list"
  waitingForControl :: "(pos \<times> string list) list"
  lingering :: "(string \<times> pos list) list"
  changeResolvers :: "(string \<times> nat list) list"
  woken :: "(string \<times> nat \<times> nat) list"
  delivered :: "(nat \<times> string) list"

text \<open>
  Reading \<^verbatim>\<open>xs[i]\<close>: \<open>None\<close> is JavaScript's \<^verbatim>\<open>undefined\<close>. Reading \<^verbatim>\<open>grid[r][c]\<close> through a row
  that may be missing is \<open>cell\<close>.
\<close>

definition at :: "'a list \<Rightarrow> nat \<Rightarrow> 'a option" where
  "at xs i = (if i < length xs then Some (xs ! i) else None)"

definition cell :: "'a list list \<Rightarrow> nat \<Rightarrow> nat \<Rightarrow> 'a option" where
  "cell g r c = (case at g r of None \<Rightarrow> None | Some line \<Rightarrow> at line c)"

text \<open>
  Writing \<^verbatim>\<open>grid[r][c] = v\<close>. The source only writes where \<^verbatim>\<open>checkRep\<close>'s dimensions put a
  cell; outside them JavaScript would grow the array and this update does nothing.
\<close>

definition put :: "'a list list \<Rightarrow> nat \<Rightarrow> nat \<Rightarrow> 'a \<Rightarrow> 'a list list" where
  "put g r c v = g[r := (g ! r)[c := v]]"

text \<open>A player object is mutated in place: the entry of the map changes.\<close>

definition update_player :: "board \<Rightarrow> string \<Rightarrow> (player \<Rightarrow> player) \<Rightarrow> board" where
  "update_player b i f = b\<lparr>players := AList.map_entry i f (players b)\<rparr>"

subsection \<open>checkRep\<close>

definition cell_ok :: "board \<Rightarrow> nat \<Rightarrow> nat \<Rightarrow> bool" where
  "cell_ok b r c =
     (case cards b ! r ! c of
        None \<Rightarrow> faceUp b ! r ! c = False \<and> controller b ! r ! c = None
      | Some pic \<Rightarrow>
          pic \<noteq> [] \<and> \<not> list_ex is_space pic \<and>
          (case controller b ! r ! c of
             None \<Rightarrow> True
           | Some ctrl \<Rightarrow> map_of (players b) ctrl \<noteq> None))"

definition row_ok :: "board \<Rightarrow> nat \<Rightarrow> bool" where
  "row_ok b r =
     (length (cards b ! r) = cols b \<and> length (faceUp b ! r) = cols b \<and>
      length (controller b ! r) = cols b \<and> list_all (cell_ok b r) [0..<cols b])"

text \<open>\<open>checkRep b\<close> holds when every \<^verbatim>\<open>assert\<close> of \<^verbatim>\<open>checkRep\<close> passes.\<close>

definition checkRep :: "board \<Rightarrow> bool" where
  "checkRep b =
     (rows b \<ge> 1 \<and> cols b \<ge> 1 \<and>
      length (cards b) = rows b \<and> length (faceUp b) = rows b \<and>
      length (controller b) = rows b \<and>
      list_all (row_ok b) [0..<rows b] \<and>
      list_all (\<lambda>(playerId, p). playerId \<noteq> [] \<and> \<not> list_ex is_space playerId) (players b) \<and>
      list_all (\<lambda>((row, col), ws). row < rows b \<and> col < cols b) (waitingForControl b) \<and>
      list_all (\<lambda>(playerId, positions).
         map_of (players b) playerId \<noteq> None \<and>
         list_all (\<lambda>(row, col). row < rows b \<and> col < cols b) positions) (lingering b) \<and>
      list_all (\<lambda>(playerId, resolvers). map_of (players b) playerId \<noteq> None)
         (changeResolvers b))"

subsection \<open>registerPlayer\<close>

text \<open>
  \<^verbatim>\<open>registerPlayer(id, displayName = id)\<close>: the display name is an argument of the method;
  \<open>None\<close> is the call without it. The method returns the player of the id.
\<close>

definition registerPlayer :: "board \<Rightarrow> string \<Rightarrow> string option \<Rightarrow> (error + player) \<times> board" where
  "registerPlayer b i displayName =
     (if i = [] \<or> list_ex is_space i then (Inl InvalidPlayerId, b)
      else case map_of (players b) i of
        Some existing \<Rightarrow> (Inr existing, b)
      | None \<Rightarrow>
          (let p = new_Player i;
               b1 = b\<lparr>players := AList.update i p (players b)\<rparr>
           in if checkRep b1 then (Inr p, b1) else (Inl RepInvariantViolated, b1)))"

definition listPlayers :: "board \<Rightarrow> string list" where
  "listPlayers b = map fst (players b)"

subsection \<open>Queries\<close>

text \<open>\<^verbatim>\<open>requireInBounds\<close>, then the read \<^verbatim>\<open>row[col] ?? null\<close>.\<close>

definition pictureAt :: "board \<Rightarrow> nat \<Rightarrow> nat \<Rightarrow> error + string option" where
  "pictureAt b row col =
     (if row \<ge> rows b \<or> col \<ge> cols b then Inl OutOfBounds
      else case at (cards b) row of
        None \<Rightarrow> Inl InvalidRow
      | Some cardsRow \<Rightarrow>
          Inr (case at cardsRow col of Some (Some pic) \<Rightarrow> Some pic | _ \<Rightarrow> None))"

definition isFaceUp :: "board \<Rightarrow> nat \<Rightarrow> nat \<Rightarrow> error + bool" where
  "isFaceUp b row col =
     (if row \<ge> rows b \<or> col \<ge> cols b then Inl OutOfBounds
      else case at (faceUp b) row of
        None \<Rightarrow> Inl InvalidRow
      | Some faceUpRow \<Rightarrow> Inr (case at faceUpRow col of Some u \<Rightarrow> u | None \<Rightarrow> False))"

definition controllerAt :: "board \<Rightarrow> nat \<Rightarrow> nat \<Rightarrow> error + string option" where
  "controllerAt b row col =
     (if row \<ge> rows b \<or> col \<ge> cols b then Inl OutOfBounds
      else case at (controller b) row of
        None \<Rightarrow> Inl InvalidRow
      | Some controllerRow \<Rightarrow>
          Inr (case at controllerRow col of Some (Some ctrl) \<Rightarrow> Some ctrl | _ \<Rightarrow> None))"

text \<open>\<^verbatim>\<open>faceUpRow[col] ?? false\<close>, as \<^verbatim>\<open>flipUp\<close>, \<^verbatim>\<open>flipDown\<close> and \<^verbatim>\<open>flipDownIfUncontrolled\<close> read it.\<close>

definition up_at :: "board \<Rightarrow> nat \<Rightarrow> nat \<Rightarrow> bool" where
  "up_at b row col = (case cell (faceUp b) row col of Some u \<Rightarrow> u | None \<Rightarrow> False)"

subsection \<open>Rendering\<close>

text \<open>
  A number in a template string: its decimal digits (the numbers printed are \<open>rows\<close> and
  \<open>cols\<close>, far below \<open>10^21\<close>, where JavaScript changes to the exponent form).
\<close>

fun show_nat :: "nat \<Rightarrow> string" where
  "show_nat n =
     (if n < 10 then [char_of (48 + n)]
      else show_nat (n div 10) @ [char_of (48 + n mod 10)])"

declare show_nat.simps [simp del]

text \<open>\<^verbatim>\<open>Array.prototype.join\<close>.\<close>

fun join :: "string \<Rightarrow> string list \<Rightarrow> string" where
  "join sep [] = []"
| "join sep [x] = x"
| "join sep (x # y # ys) = x @ sep @ join sep (y # ys)"

definition header_line :: "board \<Rightarrow> string" where
  "header_line b = show_nat (rows b) @ ''x'' @ show_nat (cols b)"

text \<open>
  \<^verbatim>\<open>render\<close> reads each cell through \<^verbatim>\<open>pictureAt\<close>, \<^verbatim>\<open>isFaceUp\<close> and \<^verbatim>\<open>controllerAt\<close> with
  \<open>r < rows\<close> and \<open>c < cols\<close>; these throw only when a grid has fewer than \<open>rows\<close> rows, which
  the constructor's \<^verbatim>\<open>checkRep\<close> excludes and no method changes. The model gives the string
  rendered on such a board.
\<close>

definition render_cell :: "board \<Rightarrow> string \<Rightarrow> nat \<Rightarrow> nat \<Rightarrow> string" where
  "render_cell b playerId r c =
     (case cell (cards b) r c of
        Some (Some pic) \<Rightarrow>
          if \<not> up_at b r c then ''down''
          else (if cell (controller b) r c = Some (Some playerId) then ''my'' else ''up'')
               @ '' '' @ pic
      | _ \<Rightarrow> ''none'')"

definition render :: "board \<Rightarrow> string \<Rightarrow> string" where
  "render b playerId =
     join [LF] (header_line b #
       concat (map (\<lambda>r. map (\<lambda>c. render_cell b playerId r c) [0..<cols b]) [0..<rows b]))
     @ [LF]"

definition picturesDump :: "board \<Rightarrow> string" where
  "picturesDump b =
     join [LF] (header_line b #
       concat (map (\<lambda>r. case at (cards b) r of
                           None \<Rightarrow> []
                         | Some cardsRow \<Rightarrow>
                             map (\<lambda>c. case at cardsRow c of
                                         Some (Some pic) \<Rightarrow> pic
                                       | _ \<Rightarrow> ''none'') [0..<cols b])
               [0..<rows b]))
     @ [LF]"

subsection \<open>Change watchers\<close>

definition addChangeWatcher :: "board \<Rightarrow> string \<Rightarrow> nat \<Rightarrow> board" where
  "addChangeWatcher b playerId resolver =
     b\<lparr>changeResolvers :=
         AList.update playerId
           ((case map_of (changeResolvers b) playerId of None \<Rightarrow> [] | Some l \<Rightarrow> l)
            @ [resolver])
           (changeResolvers b)\<rparr>"

definition notifyChange :: "board \<Rightarrow> board" where
  "notifyChange b =
     b\<lparr>delivered := delivered b @
          concat (map (\<lambda>(playerId, resolvers).
                         map (\<lambda>resolve. (resolve, render b playerId)) resolvers)
                  (changeResolvers b)),
       changeResolvers := []\<rparr>"

subsection \<open>Waiters and lingering cards\<close>

definition notifyWaiters :: "board \<Rightarrow> nat \<Rightarrow> nat \<Rightarrow> board" where
  "notifyWaiters b row col =
     b\<lparr>woken := woken b @
          (case map_of (waitingForControl b) (row, col) of
             None \<Rightarrow> []
           | Some waiters \<Rightarrow> map (\<lambda>waiter. (waiter, row, col)) waiters),
       waitingForControl := AList.delete (row, col) (waitingForControl b)\<rparr>"

definition rememberLingering :: "board \<Rightarrow> string \<Rightarrow> nat \<Rightarrow> nat \<Rightarrow> board" where
  "rememberLingering b playerId row col =
     b\<lparr>lingering :=
         AList.update playerId
           ((case map_of (lingering b) playerId of None \<Rightarrow> [] | Some l \<Rightarrow> l)
            @ [(row, col)])
           (lingering b)\<rparr>"

definition flipDownIfUncontrolled :: "board \<Rightarrow> nat \<Rightarrow> nat \<Rightarrow> board" where
  "flipDownIfUncontrolled b row col =
     (if at (cards b) row = None \<or> at (faceUp b) row = None \<or> at (controller b) row = None
      then b
      else if cell (cards b) row col \<noteq> Some None \<and> up_at b row col \<and>
              cell (controller b) row col = Some None
      then b\<lparr>faceUp := put (faceUp b) row col False\<rparr>
      else b)"

subsection \<open>cleanupPreviousPlay\<close>

text \<open>
  Rule 3-A for one card of the pair; the source writes this block once for the first card
  and once for the second.
\<close>

definition removeIfControlled :: "board \<Rightarrow> string \<Rightarrow> nat \<Rightarrow> nat \<Rightarrow> board" where
  "removeIfControlled b i row col =
     (if at (cards b) row \<noteq> None \<and> at (controller b) row \<noteq> None \<and> at (faceUp b) row \<noteq> None
      then
        if cell (controller b) row col = Some (Some i)
        then notifyWaiters
               (b\<lparr>cards := put (cards b) row col None,
                  faceUp := put (faceUp b) row col False,
                  controller := put (controller b) row col None\<rparr>) row col
        else b
      else b)"

text \<open>
  The method is given the player object; the model is given the key under which the board
  holds it, and the method's last line changes that entry.
\<close>

definition cleanupPreviousPlay :: "board \<Rightarrow> string \<Rightarrow> outcome \<times> board" where
  "cleanupPreviousPlay b playerId =
     (case map_of (players b) playerId of
        None \<Rightarrow> (Threw UnknownPlayer, b)
      | Some player \<Rightarrow>
          let i = ident player;
              b1 = (case map_of (lingering b) i of
                      None \<Rightarrow> b
                    | Some linger \<Rightarrow>
                        if linger \<noteq> []
                        then (fold (\<lambda>(row, col) s. flipDownIfUncontrolled s row col) linger b)
                               \<lparr>lingering := AList.delete i (lingering b)\<rparr>
                        else b)
          in case (firstCard player, secondCard player) of
               (Some (fr, fc), Some (sr, sc)) \<Rightarrow>
                 (case pictureAt b1 fr fc of
                    Inl e \<Rightarrow> (Threw e, b1)
                  | Inr firstPic \<Rightarrow>
                      (case pictureAt b1 sr sc of
                         Inl e \<Rightarrow> (Threw e, b1)
                       | Inr secondPic \<Rightarrow>
                           if firstPic = secondPic \<and> firstPic \<noteq> None
                           then (Done, update_player
                                   (removeIfControlled (removeIfControlled b1 i fr fc) i sr sc)
                                   playerId clearCards)
                           else (Done, update_player
                                   (flipDownIfUncontrolled (flipDownIfUncontrolled b1 fr fc) sr sc)
                                   playerId clearCards)))
             | (Some (fr, fc), None) \<Rightarrow>
                 (Done, update_player (flipDownIfUncontrolled b1 fr fc) playerId clearCards)
             | (None, _) \<Rightarrow> (Done, update_player b1 playerId clearCards))"

subsection \<open>flipUp\<close>

text \<open>
  The block that the same-card guard and rules 2-A and 2-B share: give up the first card
  if the player still holds it and wake its waiters, remember it as lingering, clear
  the player's cards.
\<close>

definition relinquish :: "board \<Rightarrow> string \<Rightarrow> nat \<Rightarrow> nat \<Rightarrow> board" where
  "relinquish b playerId row col =
     (if cell (controller b) row col = Some (Some playerId)
      then notifyWaiters (b\<lparr>controller := put (controller b) row col None\<rparr>) row col
      else b)"

definition fail_second :: "board \<Rightarrow> string \<Rightarrow> nat \<Rightarrow> nat \<Rightarrow> board" where
  "fail_second b playerId fr fc =
     update_player (rememberLingering (relinquish b playerId fr fc) playerId fr fc)
       playerId clearCards"

text \<open>
  The first-card branch after its call of \<^verbatim>\<open>cleanupPreviousPlay\<close>: rules 1-A to 1-D and the
  player's own card.
\<close>

definition flipUp_first_rules :: "board \<Rightarrow> string \<Rightarrow> nat \<Rightarrow> nat \<Rightarrow> outcome \<times> board" where
  "flipUp_first_rules b1 playerId row col =
     (if cell (cards b1) row col = Some None then (Threw EmptySpace, b1)
      else if \<not> up_at b1 row col then
        (let b2 = update_player
                    (b1\<lparr>faceUp := put (faceUp b1) row col True,
                        controller := put (controller b1) row col (Some playerId)\<rparr>)
                    playerId (\<lambda>p. recordFlip (setFirstCard (row, col) p))
         in if checkRep b2 then (Done, notifyChange b2)
            else (Threw RepInvariantViolated, b2))
      else if cell (controller b1) row col = Some None then
        (let b2 = update_player
                    (b1\<lparr>controller := put (controller b1) row col (Some playerId)\<rparr>)
                    playerId (\<lambda>p. recordFlip (setFirstCard (row, col) p))
         in if checkRep b2 then (Done, b2) else (Threw RepInvariantViolated, b2))
      else if cell (controller b1) row col \<noteq> Some (Some playerId) then
        (Parked,
         b1\<lparr>waitingForControl :=
              AList.update (row, col)
                ((case map_of (waitingForControl b1) (row, col) of
                    None \<Rightarrow> [] | Some ws \<Rightarrow> ws) @ [playerId])
                (waitingForControl b1)\<rparr>)
      else
        (let b2 = update_player b1 playerId (\<lambda>p. recordFlip (setFirstCard (row, col) p))
         in if checkRep b2 then (Done, notifyChange b2)
            else (Threw RepInvariantViolated, b2)))"

text \<open>The first-card branch.\<close>

definition flipUp_first :: "board \<Rightarrow> string \<Rightarrow> nat \<Rightarrow> nat \<Rightarrow> outcome \<times> board" where
  "flipUp_first b playerId row col =
     (case cleanupPreviousPlay b playerId of
        (Threw e, b1) \<Rightarrow> (Threw e, b1)
      | (_, b1) \<Rightarrow> flipUp_first_rules b1 playerId row col)"

text \<open>The second-card branch (the same-card guard and rules 2-A to 2-E).\<close>

definition flipUp_second :: "board \<Rightarrow> string \<Rightarrow> nat \<Rightarrow> nat \<Rightarrow> outcome \<times> board" where
  "flipUp_second b playerId row col =
     (case map_of (players b) playerId of
        None \<Rightarrow> (Threw UnknownPlayer, b)
      | Some player \<Rightarrow>
         (case firstCard player of
            None \<Rightarrow> (Threw NoFirstCard, b)
          | Some (fr, fc) \<Rightarrow>
              if fr = row \<and> fc = col then (Threw SameCardTwice, fail_second b playerId fr fc)
              else if cell (cards b) row col = Some None
              then (Threw EmptySpace, fail_second b playerId fr fc)
              else if up_at b row col \<and> cell (controller b) row col \<noteq> Some None
              then (Threw Controlled, fail_second b playerId fr fc)
              else
                let b1 = (if \<not> up_at b row col
                          then b\<lparr>faceUp := put (faceUp b) row col True\<rparr> else b);
                    b2 = update_player
                           (b1\<lparr>controller := put (controller b1) row col (Some playerId)\<rparr>)
                           playerId (\<lambda>p. recordFlip (setSecondCard (row, col) p))
                in case pictureAt b2 fr fc of
                     Inl e \<Rightarrow> (Threw e, b2)
                   | Inr firstPic \<Rightarrow>
                       let b3 = (if Some firstPic = cell (cards b) row col \<and> firstPic \<noteq> None
                                 then b2
                                 else let b4 = relinquish b2 playerId fr fc
                                      in notifyWaiters
                                           (b4\<lparr>controller := put (controller b4) row col None\<rparr>)
                                           row col)
                       in if checkRep b3 then (Done, notifyChange b3)
                          else (Threw RepInvariantViolated, b3)))"

definition flipUp :: "board \<Rightarrow> string \<Rightarrow> nat \<Rightarrow> nat \<Rightarrow> outcome \<times> board" where
  "flipUp b playerId row col =
     (if row \<ge> rows b \<or> col \<ge> cols b then (Threw OutOfBounds, b)
      else case map_of (players b) playerId of
        None \<Rightarrow> (Threw UnknownPlayer, b)
      | Some player \<Rightarrow>
          if at (cards b) row = None \<or> at (faceUp b) row = None \<or> at (controller b) row = None
          then (Threw InvalidRow, b)
          else
            (case (if secondCard player \<noteq> None then cleanupPreviousPlay b playerId
                   else (Done, b)) of
               (Threw e, b1) \<Rightarrow> (Threw e, b1)
             | (_, b1) \<Rightarrow>
                 (case map_of (players b1) playerId of
                    None \<Rightarrow> (Threw UnknownPlayer, b1)
                  | Some player1 \<Rightarrow>
                      if isFirstCardFlip player1 then flipUp_first b1 playerId row col
                      else flipUp_second b1 playerId row col)))"

subsection \<open>flipDown\<close>

definition flipDown :: "board \<Rightarrow> nat \<Rightarrow> nat \<Rightarrow> outcome \<times> board" where
  "flipDown b row col =
     (if row \<ge> rows b \<or> col \<ge> cols b then (Threw OutOfBounds, b)
      else if at (cards b) row = None \<or> at (faceUp b) row = None \<or>
              at (controller b) row = None
      then (Threw InvalidRow, b)
      else if cell (cards b) row col = Some None then (Threw EmptySpace, b)
      else if \<not> up_at b row col then (Threw AlreadyFaceDown, b)
      else
        (let b1 = b\<lparr>faceUp := put (faceUp b) row col False,
                    controller := put (controller b) row col None\<rparr>
         in if checkRep b1 then (Done, notifyChange b1)
            else (Threw RepInvariantViolated, b1)))"

subsection \<open>map\<close>

text \<open>
  The transform is a function from the old picture to the new one (a promise that
  resolves); the second component collects, in order, the pictures it is called with.
\<close>

definition map_cell ::
  "(string \<Rightarrow> string) \<Rightarrow> nat \<Rightarrow> nat \<Rightarrow> board \<times> string list \<Rightarrow> board \<times> string list" where
  "map_cell f r c = (\<lambda>(b, calls).
     case cell (cards b) r c of
       Some (Some pic) \<Rightarrow> (b\<lparr>cards := put (cards b) r c (Some (f pic))\<rparr>, calls @ [pic])
     | _ \<Rightarrow> (b, calls))"

definition map_loop :: "board \<Rightarrow> (string \<Rightarrow> string) \<Rightarrow> board \<times> string list" where
  "map_loop b f =
     fold (\<lambda>r s. if at (cards (fst s)) r = None then s
                  else fold (\<lambda>c. map_cell f r c) [0..<cols b] s)
       [0..<rows b] (b, [])"

definition map_board :: "board \<Rightarrow> (string \<Rightarrow> string) \<Rightarrow> outcome \<times> board" where
  "map_board b f =
     (let b1 = fst (map_loop b f)
      in if checkRep b1 then (Done, notifyChange b1) else (Threw RepInvariantViolated, b1))"

subsection \<open>parseFromFile\<close>

text \<open>\<^verbatim>\<open>text.replace(/\r\n/g, '\n')\<close> and \<^verbatim>\<open>.replace(/\r/g, '\n')\<close>.\<close>

fun replace_crlf :: "string \<Rightarrow> string" where
  "replace_crlf [] = []"
| "replace_crlf [c] = [c]"
| "replace_crlf (c # d # s) =
     (if c = CR \<and> d = LF then LF # replace_crlf s else c # replace_crlf (d # s))"

definition replace_cr :: "string \<Rightarrow> string" where
  "replace_cr s = map (\<lambda>c. if c = CR then LF else c) s"

text \<open>\<^verbatim>\<open>String.prototype.split\<close> on one character.\<close>

fun split_on :: "char \<Rightarrow> string \<Rightarrow> string list" where
  "split_on sep [] = [[]]"
| "split_on sep (c # s) =
     (if c = sep then [] # split_on sep s
      else case split_on sep s of [] \<Rightarrow> [[c]] | l # ls \<Rightarrow> (c # l) # ls)"

definition trim :: "string \<Rightarrow> string" where
  "trim s = rev (dropWhile is_space (rev (dropWhile is_space s)))"

text \<open>
  The match of \<^verbatim>\<open>/^(\d+)x(\d+)$/\<close>: the first group is the longest run of digits at the
  start, since the character after it has to be \<^verbatim>\<open>x\<close>.
\<close>

definition match_header :: "string \<Rightarrow> (string \<times> string) option" where
  "match_header h =
     (let m1 = takeWhile is_digit h; rest = dropWhile is_digit h
      in if m1 \<noteq> [] \<and> rest \<noteq> [] \<and> hd rest = CHR ''x'' \<and> tl rest \<noteq> [] \<and>
            list_all is_digit (tl rest)
         then Some (m1, tl rest) else None)"

text \<open>
  \<^verbatim>\<open>Number\<close> of a string of digits. A double is exact below \<open>2^53\<close>; a header with a larger
  number is refused in the source (by the count of card lines, or as invalid dimensions
  when the double is infinite) and refused here by the count of card lines, no file having
  that many lines.
\<close>

definition Number :: "string \<Rightarrow> nat" where
  "Number ds = foldl (\<lambda>n ch. 10 * n + (of_char ch - 48)) 0 ds"

text \<open>The loop over the card lines, from index \<open>i\<close>.\<close>

fun check_cards :: "nat \<Rightarrow> string list \<Rightarrow> error + string option list" where
  "check_cards i [] = Inr []"
| "check_cards i (tok # toks) =
     (if tok = [] \<or> list_ex is_space tok then Inl (InvalidCard (i + 2))
      else case check_cards (i + 1) toks of
             Inl e \<Rightarrow> Inl e
           | Inr layout \<Rightarrow> Inr (Some tok # layout))"

text \<open>The constructor: cell \<open>(r, c)\<close> takes \<^verbatim>\<open>layout[k++] ?? null\<close> with \<open>k = r * cols + c\<close>.\<close>

definition Board :: "nat \<Rightarrow> nat \<Rightarrow> string option list \<Rightarrow> error + board" where
  "Board rs cs layout =
     (let b = \<lparr>rows = rs, cols = cs,
               cards = map (\<lambda>r. map (\<lambda>c. case at layout (r * cs + c) of
                                             Some x \<Rightarrow> x | None \<Rightarrow> None) [0..<cs]) [0..<rs],
               faceUp = replicate rs (replicate cs False),
               controller = replicate rs (replicate cs None),
               players = [], waitingForControl = [], lingering = [], changeResolvers = [],
               woken = [], delivered = []\<rparr>
      in if checkRep b then Inr b else Inl RepInvariantViolated)"

text \<open>
  \<^verbatim>\<open>parseFromFile\<close>, from the text read from the file. The \<^verbatim>\<open>catch\<close> puts the file name in
  front of the message and keeps the kind of the error.
\<close>

definition parseFromFile :: "string \<Rightarrow> error + board" where
  "parseFromFile txt =
     (let norm = replace_cr (replace_crlf txt);
          lines0 = split_on LF norm;
          lines1 = (if lines0 \<noteq> [] \<and> last lines0 = [] then butlast lines0 else lines0)
      in if lines1 = [] then Inl InvalidFile
         else
           let header = trim (hd lines1)
           in if header = [] then Inl MissingHeader
              else case match_header header of
                None \<Rightarrow> Inl InvalidHeader
              | Some (m1, m2) \<Rightarrow>
                  let rs = Number m1; cs = Number m2
                  in if rs < 1 \<or> cs < 1 then Inl InvalidDimensions
                     else
                       let cardLines = tl lines1
                       in if length cardLines \<noteq> rs * cs then Inl WrongCardCount
                          else case check_cards 0 cardLines of
                                 Inl e \<Rightarrow> Inl e
                               | Inr layout \<Rightarrow> Board rs cs layout)"

section \<open>Invariants and reachable boards\<close>

text \<open>The invariants of the specification, read through the public queries.\<close>

definition cell_inv :: "board \<Rightarrow> nat \<Rightarrow> nat \<Rightarrow> bool" where
  "cell_inv b r c =
     ((pictureAt b r c = Inr None \<longrightarrow>
         isFaceUp b r c = Inr False \<and> controllerAt b r c = Inr None) \<and>
      (\<forall>q. controllerAt b r c = Inr (Some q) \<longrightarrow>
         isFaceUp b r c = Inr True \<and> (\<exists>pic. pictureAt b r c = Inr (Some pic)) \<and>
         q \<in> set (listPlayers b)))"

definition player_inv :: "player \<Rightarrow> bool" where
  "player_inv p = (firstCard p = None \<longrightarrow> secondCard p = None)"

definition spec_inv :: "board \<Rightarrow> bool" where
  "spec_inv b =
     ((\<forall>r<rows b. \<forall>c<cols b. cell_inv b r c) \<and>
      (\<forall>(playerId, p) \<in> set (players b). player_inv p))"

text \<open>A call of a public method that changes the board, and the board it leaves.\<close>

datatype call =
    RegisterPlayer string "string option"
  | FlipUp string nat nat
  | FlipDown nat nat
  | MapCards "string \<Rightarrow> string"
  | AddChangeWatcher string nat

fun after :: "board \<Rightarrow> call \<Rightarrow> board" where
  "after b (RegisterPlayer i d) = snd (registerPlayer b i d)"
| "after b (FlipUp playerId row col) = snd (flipUp b playerId row col)"
| "after b (FlipDown row col) = snd (flipDown b row col)"
| "after b (MapCards f) = snd (map_board b f)"
| "after b (AddChangeWatcher playerId resolver) = addChangeWatcher b playerId resolver"

text \<open>
  The boards a program can hold: one parsed from a file, then any calls, whether they
  return, throw or park.
\<close>

inductive reachable :: "board \<Rightarrow> bool" where
  parsed: "parseFromFile txt = Inr b \<Longrightarrow> reachable b"
| called: "reachable b \<Longrightarrow> reachable (after b c)"

text \<open>The grids have \<open>rows\<close> rows of \<open>cols\<close> cells.\<close>

definition dims_ok :: "board \<Rightarrow> bool" where
  "dims_ok b =
     (length (cards b) = rows b \<and> length (faceUp b) = rows b \<and>
      length (controller b) = rows b \<and>
      (\<forall>r<rows b. length (cards b ! r) = cols b \<and> length (faceUp b ! r) = cols b \<and>
                   length (controller b ! r) = cols b))"

text \<open>
  The cell invariants on the arrays: a face-up cell holds a card, and a controlled cell
  is face up and its controller is registered.
\<close>

definition grid_inv :: "board \<Rightarrow> bool" where
  "grid_inv b =
     (\<forall>r<rows b. \<forall>c<cols b.
        (faceUp b ! r ! c \<longrightarrow> cards b ! r ! c \<noteq> None) \<and>
        (\<forall>q. controller b ! r ! c = Some q \<longrightarrow>
           faceUp b ! r ! c \<and> map_of (players b) q \<noteq> None))"

text \<open>
  A player is stored under its id, has a second card only with a first one, and its
  cards are cells of the board.
\<close>

definition in_board :: "nat \<Rightarrow> nat \<Rightarrow> pos option \<Rightarrow> bool" where
  "in_board rs cs q = (case q of None \<Rightarrow> True | Some (r, c) \<Rightarrow> r < rs \<and> c < cs)"

definition player_ok :: "nat \<Rightarrow> nat \<Rightarrow> string \<Rightarrow> player \<Rightarrow> bool" where
  "player_ok rs cs k p =
     (ident p = k \<and> player_inv p \<and> in_board rs cs (firstCard p) \<and>
      in_board rs cs (secondCard p))"

definition inv :: "board \<Rightarrow> bool" where
  "inv b =
     (dims_ok b \<and> grid_inv b \<and>
      (\<forall>(k, p) \<in> set (players b). player_ok (rows b) (cols b) k p))"

text \<open>The loop of \<^verbatim>\<open>cleanupPreviousPlay\<close> over the lingering cards.\<close>

abbreviation flipDownAll :: "pos list \<Rightarrow> board \<Rightarrow> board" where
  "flipDownAll linger b \<equiv> fold (\<lambda>(row, col) s. flipDownIfUncontrolled s row col) linger b"

section \<open>The round trip of the specification\<close>

text \<open>
  The normalised contents of a file, in the words of the specification: CRLF and stray CR
  are replaced by LF, and the text ends in one LF.
\<close>

definition normalised :: "string \<Rightarrow> string" where
  "normalised txt =
     (let n = replace_cr (replace_crlf txt)
      in if n \<noteq> [] \<and> last n = LF then n else n @ [LF])"

text \<open>
  A header line as \<^verbatim>\<open>picturesDump\<close> writes it: digits, \<^verbatim>\<open>x\<close>, digits, nothing around them and
  no zero in front.
\<close>

definition plain_header :: "string \<Rightarrow> bool" where
  "plain_header h =
     (case match_header h of
        None \<Rightarrow> False
      | Some (m1, m2) \<Rightarrow> hd m1 \<noteq> CHR ''0'' \<and> hd m2 \<noteq> CHR ''0'')"

text \<open>The line that \<^verbatim>\<open>picturesDump\<close> writes for a cell.\<close>

definition token_of :: "string option \<Rightarrow> string" where
  "token_of x = (case x of Some pic \<Rightarrow> pic | None \<Rightarrow> ''none'')"

section \<open>Example boards\<close>

text \<open>A sequence of calls, one after the other.\<close>

definition run :: "board \<Rightarrow> call list \<Rightarrow> board" where
  "run b cs = fold (\<lambda>c s. after s c) cs b"

text \<open>The board parsed from the file of the lines \<^verbatim>\<open>2x2\<close>, \<^verbatim>\<open>A\<close>, \<^verbatim>\<open>A\<close>, \<^verbatim>\<open>B\<close>, \<^verbatim>\<open>C\<close>.\<close>

definition board_AABC :: board where
  "board_AABC =
     \<lparr>rows = 2, cols = 2, cards = [[Some ''A'', Some ''A''], [Some ''B'', Some ''C'']],
      faceUp = [[False, False], [False, False]],
      controller = [[None, None], [None, None]], players = [],
      waitingForControl = [], lingering = [], changeResolvers = [],
      woken = [], delivered = []\<rparr>"

section \<open>The pictures on a board\<close>

text \<open>The pictures of a row and of the board, from left to right and top to bottom.\<close>

definition pictures_of_row :: "string option list \<Rightarrow> string list" where
  "pictures_of_row line = concat (map (\<lambda>x. case x of None \<Rightarrow> [] | Some pic \<Rightarrow> [pic]) line)"

definition pictures :: "board \<Rightarrow> string list" where
  "pictures b = concat (map pictures_of_row (cards b))"

text \<open>The grid after the transform: every picture replaced, every empty cell as it was.\<close>

definition mapped :: "(string \<Rightarrow> string) \<Rightarrow> board \<Rightarrow> board" where
  "mapped f b = b\<lparr>cards := map (map (map_option f)) (cards b)\<rparr>"

text \<open>The asserts of \<^verbatim>\<open>checkRep\<close> on the four maps.\<close>

definition maps_ok :: "board \<Rightarrow> bool" where
  "maps_ok b =
     (list_all (\<lambda>(playerId, p). playerId \<noteq> [] \<and> \<not> list_ex is_space playerId) (players b) \<and>
      list_all (\<lambda>((row, col), ws). row < rows b \<and> col < cols b) (waitingForControl b) \<and>
      list_all (\<lambda>(playerId, positions).
         map_of (players b) playerId \<noteq> None \<and>
         list_all (\<lambda>(row, col). row < rows b \<and> col < cols b) positions) (lingering b) \<and>
      list_all (\<lambda>(playerId, resolvers). map_of (players b) playerId \<noteq> None)
         (changeResolvers b))"

section \<open>Notions of the claims\<close>

text \<open>
  The board on which a first flip looks at its target: the board after the player's
  previous play is cleaned up.
\<close>

definition cleaned :: "board \<Rightarrow> string \<Rightarrow> board" where
  "cleaned b playerId = snd (cleanupPreviousPlay b playerId)"


text \<open>The waiters parked on a cell, as the calls to retry, in the order of the queue.\<close>

definition waiters_of :: "board \<Rightarrow> nat \<Rightarrow> nat \<Rightarrow> (string \<times> nat \<times> nat) list" where
  "waiters_of b row col =
     (case map_of (waitingForControl b) (row, col) of
        None \<Rightarrow> []
      | Some waiters \<Rightarrow> map (\<lambda>waiter. (waiter, row, col)) waiters)"




section \<open>Lemmas\<close>

subsection \<open>Arrays\<close>

lemma cell_eq:
  "cell g r c = (if r < length g \<and> c < length (g ! r) then Some (g ! r ! c) else None)"
  by (simp add: cell_def at_def)

lemma at_eq_None [simp]: "at xs i = None \<longleftrightarrow> length xs \<le> i"
  by (auto simp: at_def)

lemma length_put [simp]: "length (put g r c v) = length g"
  by (simp add: put_def)

lemma length_put_nth [simp]: "length (put g r c v ! r') = length (g ! r')"
  by (cases "r < length g"; cases "r' = r") (simp_all add: put_def list_update_beyond)

lemma put_nth:
  "put g r c v ! r' ! c' =
     (if r' = r \<and> c' = c \<and> r < length g \<and> c < length (g ! r) then v else g ! r' ! c')"
  by (cases "r < length g"; cases "r' = r"; cases "c' = c"; cases "c < length (g ! r)")
     (simp_all add: put_def list_update_beyond)

subsection \<open>Players in the map\<close>

lemma map_entry_absent: "map_of xs k = None \<Longrightarrow> AList.map_entry k f xs = xs"
  by (induction xs) (auto split: if_splits)

lemma set_map_entry:
  "map_of xs k = Some p \<Longrightarrow> kp \<in> set (AList.map_entry k f xs) \<Longrightarrow>
   kp \<in> set xs \<or> kp = (k, f p)"
  by (induction xs) (auto split: if_splits)

lemma map_of_update_player:
  "map_of (players (update_player b k f)) k' =
     (if k' = k then map_option f (map_of (players b) k) else map_of (players b) k')"
  by (simp add: update_player_def AList.map_of_map_entry split: option.splits)

lemma map_of_update_player_None [simp]:
  "map_of (players (update_player b k f)) q = None \<longleftrightarrow> map_of (players b) q = None"
  by (simp add: map_of_update_player)

lemma update_player_fields [simp]:
  "rows (update_player b k f) = rows b"
  "cols (update_player b k f) = cols b"
  "cards (update_player b k f) = cards b"
  "faceUp (update_player b k f) = faceUp b"
  "controller (update_player b k f) = controller b"
  "waitingForControl (update_player b k f) = waitingForControl b"
  "lingering (update_player b k f) = lingering b"
  "changeResolvers (update_player b k f) = changeResolvers b"
  "woken (update_player b k f) = woken b"
  "delivered (update_player b k f) = delivered b"
  by (simp_all add: update_player_def)

lemma inv_update_player:
  assumes "inv b"
    and "\<And>p. map_of (players b) k = Some p \<Longrightarrow> player_ok (rows b) (cols b) k p \<Longrightarrow>
           player_ok (rows b) (cols b) k (f p)"
  shows "inv (update_player b k f)"
proof (cases "map_of (players b) k")
  case None
  then have "update_player b k f = b"
    by (simp add: update_player_def map_entry_absent)
  with assms show ?thesis by simp
next
  case (Some p)
  have ok: "player_ok (rows b) (cols b) k p"
    using assms(1) map_of_SomeD[OF Some] by (auto simp: inv_def)
  have "\<forall>(k', p') \<in> set (players (update_player b k f)). player_ok (rows b) (cols b) k' p'"
  proof (clarify)
    fix k' p' assume "(k', p') \<in> set (players (update_player b k f))"
    then have "(k', p') \<in> set (players b) \<or> (k', p') = (k, f p)"
      using set_map_entry[OF Some, of "(k', p')" f] by (simp add: update_player_def)
    then show "player_ok (rows b) (cols b) k' p'"
      using assms(1) assms(2)[OF Some ok] by (auto simp: inv_def)
  qed
  then show ?thesis
    using assms(1) by (simp add: inv_def dims_ok_def grid_inv_def)
qed

lemma player_ok_clearCards: "player_ok rs cs k p \<Longrightarrow> player_ok rs cs k (clearCards p)"
  by (simp add: player_ok_def clearCards_def player_inv_def in_board_def)

lemma player_ok_first:
  "player_ok rs cs k p \<Longrightarrow> r < rs \<Longrightarrow> c < cs \<Longrightarrow>
   player_ok rs cs k (recordFlip (setFirstCard (r, c) p))"
  by (simp add: player_ok_def recordFlip_def setFirstCard_def player_inv_def in_board_def)

lemma player_ok_second:
  "player_ok rs cs k p \<Longrightarrow> firstCard p \<noteq> None \<Longrightarrow> r < rs \<Longrightarrow> c < cs \<Longrightarrow>
   player_ok rs cs k (recordFlip (setSecondCard (r, c) p))"
  by (simp add: player_ok_def recordFlip_def setSecondCard_def player_inv_def in_board_def)

subsection \<open>Steps that keep the invariant\<close>

lemma inv_other_fields [simp]:
  "inv (b\<lparr>waitingForControl := w\<rparr>) = inv b"
  "inv (b\<lparr>lingering := l\<rparr>) = inv b"
  "inv (b\<lparr>changeResolvers := cr\<rparr>) = inv b"
  "inv (b\<lparr>woken := wk\<rparr>) = inv b"
  "inv (b\<lparr>delivered := d\<rparr>) = inv b"
  by (simp_all add: inv_def dims_ok_def grid_inv_def)

lemma inv_notifyWaiters [simp]: "inv (notifyWaiters b r c) = inv b"
  by (simp add: notifyWaiters_def)

lemma inv_notifyChange [simp]: "inv (notifyChange b) = inv b"
  by (simp add: notifyChange_def)

lemma inv_rememberLingering [simp]: "inv (rememberLingering b k r c) = inv b"
  by (simp add: rememberLingering_def)

lemma inv_addChangeWatcher [simp]: "inv (addChangeWatcher b k w) = inv b"
  by (simp add: addChangeWatcher_def)

lemma inv_release: "inv b \<Longrightarrow> inv (b\<lparr>controller := put (controller b) r c None\<rparr>)"
  by (auto simp: inv_def dims_ok_def grid_inv_def put_nth)

lemma inv_flipDownIfUncontrolled: "inv b \<Longrightarrow> inv (flipDownIfUncontrolled b r c)"
  by (auto simp: flipDownIfUncontrolled_def inv_def dims_ok_def grid_inv_def put_nth cell_eq
           split: if_splits)

lemma inv_remove_step:
  "inv b \<Longrightarrow>
   inv (b\<lparr>cards := put (cards b) r c None, faceUp := put (faceUp b) r c False,
          controller := put (controller b) r c None\<rparr>)"
  by (auto simp: inv_def dims_ok_def grid_inv_def put_nth)

lemma inv_removeIfControlled: "inv b \<Longrightarrow> inv (removeIfControlled b k r c)"
  by (simp add: removeIfControlled_def inv_remove_step)

lemma inv_relinquish: "inv b \<Longrightarrow> inv (relinquish b k r c)"
  by (simp add: relinquish_def inv_release)

lemma inv_take:
  "inv b \<Longrightarrow> cell (cards b) r c \<noteq> Some None \<Longrightarrow> map_of (players b) k \<noteq> None \<Longrightarrow>
   inv (b\<lparr>faceUp := put (faceUp b) r c True, controller := put (controller b) r c (Some k)\<rparr>)"
  by (auto simp: inv_def dims_ok_def grid_inv_def put_nth cell_eq split: if_splits)

lemma inv_take_up:
  "inv b \<Longrightarrow> up_at b r c \<Longrightarrow> map_of (players b) k \<noteq> None \<Longrightarrow>
   inv (b\<lparr>controller := put (controller b) r c (Some k)\<rparr>)"
  by (auto simp: inv_def dims_ok_def grid_inv_def put_nth cell_eq up_at_def split: if_splits)

lemma inv_turn_up:
  "inv b \<Longrightarrow> cell (cards b) r c \<noteq> Some None \<Longrightarrow>
   inv (b\<lparr>faceUp := put (faceUp b) r c True\<rparr>)"
  by (auto simp: inv_def dims_ok_def grid_inv_def put_nth cell_eq split: if_splits)

lemma inv_flipDown_step:
  "inv b \<Longrightarrow>
   inv (b\<lparr>faceUp := put (faceUp b) r c False, controller := put (controller b) r c None\<rparr>)"
  by (auto simp: inv_def dims_ok_def grid_inv_def put_nth)

subsection \<open>What the steps leave alone\<close>

lemma notifyWaiters_fields [simp]:
  "rows (notifyWaiters b r c) = rows b"
  "cols (notifyWaiters b r c) = cols b"
  "cards (notifyWaiters b r c) = cards b"
  "faceUp (notifyWaiters b r c) = faceUp b"
  "controller (notifyWaiters b r c) = controller b"
  "players (notifyWaiters b r c) = players b"
  "lingering (notifyWaiters b r c) = lingering b"
  "changeResolvers (notifyWaiters b r c) = changeResolvers b"
  "delivered (notifyWaiters b r c) = delivered b"
  by (simp_all add: notifyWaiters_def)

lemma notifyChange_fields [simp]:
  "rows (notifyChange b) = rows b"
  "cols (notifyChange b) = cols b"
  "cards (notifyChange b) = cards b"
  "faceUp (notifyChange b) = faceUp b"
  "controller (notifyChange b) = controller b"
  "players (notifyChange b) = players b"
  "lingering (notifyChange b) = lingering b"
  "waitingForControl (notifyChange b) = waitingForControl b"
  "woken (notifyChange b) = woken b"
  "changeResolvers (notifyChange b) = []"
  by (simp_all add: notifyChange_def)

lemma rememberLingering_fields [simp]:
  "rows (rememberLingering b k r c) = rows b"
  "cols (rememberLingering b k r c) = cols b"
  "cards (rememberLingering b k r c) = cards b"
  "faceUp (rememberLingering b k r c) = faceUp b"
  "controller (rememberLingering b k r c) = controller b"
  "players (rememberLingering b k r c) = players b"
  "waitingForControl (rememberLingering b k r c) = waitingForControl b"
  "changeResolvers (rememberLingering b k r c) = changeResolvers b"
  "woken (rememberLingering b k r c) = woken b"
  "delivered (rememberLingering b k r c) = delivered b"
  by (simp_all add: rememberLingering_def)

lemma flipDownIfUncontrolled_fields [simp]:
  "rows (flipDownIfUncontrolled b r c) = rows b"
  "cols (flipDownIfUncontrolled b r c) = cols b"
  "cards (flipDownIfUncontrolled b r c) = cards b"
  "controller (flipDownIfUncontrolled b r c) = controller b"
  "players (flipDownIfUncontrolled b r c) = players b"
  "waitingForControl (flipDownIfUncontrolled b r c) = waitingForControl b"
  "lingering (flipDownIfUncontrolled b r c) = lingering b"
  "changeResolvers (flipDownIfUncontrolled b r c) = changeResolvers b"
  "woken (flipDownIfUncontrolled b r c) = woken b"
  "delivered (flipDownIfUncontrolled b r c) = delivered b"
  by (simp_all add: flipDownIfUncontrolled_def)

lemma removeIfControlled_fields [simp]:
  "rows (removeIfControlled b k r c) = rows b"
  "cols (removeIfControlled b k r c) = cols b"
  "players (removeIfControlled b k r c) = players b"
  "lingering (removeIfControlled b k r c) = lingering b"
  "changeResolvers (removeIfControlled b k r c) = changeResolvers b"
  "delivered (removeIfControlled b k r c) = delivered b"
  by (simp_all add: removeIfControlled_def)

lemma relinquish_fields [simp]:
  "rows (relinquish b k r c) = rows b"
  "cols (relinquish b k r c) = cols b"
  "cards (relinquish b k r c) = cards b"
  "faceUp (relinquish b k r c) = faceUp b"
  "players (relinquish b k r c) = players b"
  "lingering (relinquish b k r c) = lingering b"
  "changeResolvers (relinquish b k r c) = changeResolvers b"
  "delivered (relinquish b k r c) = delivered b"
  by (simp_all add: relinquish_def)

lemma flipDownAll_fields [simp]:
  "rows (flipDownAll l b) = rows b"
  "cols (flipDownAll l b) = cols b"
  "cards (flipDownAll l b) = cards b"
  "controller (flipDownAll l b) = controller b"
  "players (flipDownAll l b) = players b"
  "waitingForControl (flipDownAll l b) = waitingForControl b"
  "lingering (flipDownAll l b) = lingering b"
  "changeResolvers (flipDownAll l b) = changeResolvers b"
  "woken (flipDownAll l b) = woken b"
  "delivered (flipDownAll l b) = delivered b"
  by (induction l arbitrary: b; simp add: split_def)+

lemma inv_flipDownAll: "inv b \<Longrightarrow> inv (flipDownAll l b)"
  by (induction l arbitrary: b) (auto simp: inv_flipDownIfUncontrolled)

subsection \<open>cleanupPreviousPlay keeps the invariant\<close>

lemma cleanup_frame [simp]:
  "rows (snd (cleanupPreviousPlay b k)) = rows b"
  "cols (snd (cleanupPreviousPlay b k)) = cols b"
  "changeResolvers (snd (cleanupPreviousPlay b k)) = changeResolvers b"
  "delivered (snd (cleanupPreviousPlay b k)) = delivered b"
  by (simp_all add: cleanupPreviousPlay_def Let_def split: option.splits prod.splits sum.splits)

lemma cleanup_registered [simp]:
  "map_of (players (snd (cleanupPreviousPlay b k))) q = None \<longleftrightarrow> map_of (players b) q = None"
  by (simp add: cleanupPreviousPlay_def Let_def split: option.splits prod.splits sum.splits)

lemma inv_cleanup: "inv b \<Longrightarrow> inv (snd (cleanupPreviousPlay b k))"
  by (auto simp: cleanupPreviousPlay_def Let_def
           intro!: inv_update_player inv_removeIfControlled inv_flipDownIfUncontrolled
                   inv_flipDownAll player_ok_clearCards
           split: option.splits prod.splits sum.splits)

subsection \<open>flipUp keeps the invariant\<close>

lemma inv_flipUp_first:
  assumes "inv b" "row < rows b" "col < cols b" "map_of (players b) k \<noteq> None"
  shows "inv (snd (flipUp_first b k row col))"
proof -
  obtain res b1 where c: "cleanupPreviousPlay b k = (res, b1)"
    by (cases "cleanupPreviousPlay b k")
  have b1: "inv b1" "rows b1 = rows b" "cols b1 = cols b" "map_of (players b1) k \<noteq> None"
    using inv_cleanup[OF assms(1), of k] cleanup_frame(1,2)[of b k]
      cleanup_registered[of b k k] assms(4) c by simp_all
  have pl: "inv (update_player b' k (\<lambda>p. recordFlip (setFirstCard (row, col) p)))"
    if "inv b'" "rows b' = rows b" "cols b' = cols b" for b'
    using that assms(2,3) by (auto intro!: inv_update_player player_ok_first)
  show ?thesis
    using b1 c
    by (auto simp: flipUp_first_def flipUp_first_rules_def Let_def
             intro!: pl inv_take inv_take_up split: outcome.splits)
qed

lemma inv_fail_second: "inv b \<Longrightarrow> inv (fail_second b k r c)"
  by (auto simp: fail_second_def intro!: inv_update_player player_ok_clearCards inv_relinquish)

lemma inv_flipUp_second:
  assumes "inv b" "row < rows b" "col < cols b"
  shows "inv (snd (flipUp_second b k row col))"
proof (cases "map_of (players b) k")
  case None
  then show ?thesis using assms by (simp add: flipUp_second_def)
next
  case (Some player)
  show ?thesis
  proof (cases "firstCard player")
    case None
    then show ?thesis using assms Some by (simp add: flipUp_second_def)
  next
    case (Some fpos)
    obtain fr fc where fpos: "fpos = (fr, fc)" by (cases fpos)
    have pl: "inv (update_player b' k (\<lambda>p. recordFlip (setSecondCard (row, col) p)))"
      if "inv b'" "rows b' = rows b" "cols b' = cols b" "players b' = players b" for b'
      using that assms(2,3) \<open>map_of (players b) k = Some player\<close> Some
      by (auto intro!: inv_update_player player_ok_second)
    have reg: "map_of (players b) k \<noteq> None"
      using \<open>map_of (players b) k = Some player\<close> by simp
    define b2 where "b2 = update_player
        ((if \<not> up_at b row col then b\<lparr>faceUp := put (faceUp b) row col True\<rparr> else b)
           \<lparr>controller := put (controller b) row col (Some k)\<rparr>)
        k (\<lambda>p. recordFlip (setSecondCard (row, col) p))"
    have "inv b2" if "cell (cards b) row col \<noteq> Some None"
      unfolding b2_def
      using inv_take[OF assms(1) that reg, of ] inv_take_up[OF assms(1) _ reg, of row col]
      by (auto intro!: pl)
    then show ?thesis
      using assms(1) \<open>map_of (players b) k = Some player\<close> Some fpos
      by (auto simp: flipUp_second_def Let_def b2_def inv_fail_second
               intro!: inv_release inv_relinquish
               split: sum.splits)
  qed
qed

lemma inv_flipUp:
  assumes "inv b"
  shows "inv (snd (flipUp b k row col))"
proof -
  obtain res b1 where c: "cleanupPreviousPlay b k = (res, b1)"
    by (cases "cleanupPreviousPlay b k")
  have b1: "inv b1" "rows b1 = rows b" "cols b1 = cols b"
    "map_of (players b1) k = None \<longleftrightarrow> map_of (players b) k = None"
    using inv_cleanup[OF assms, of k] cleanup_frame(1,2)[of b k]
      cleanup_registered[of b k k] c by simp_all
  show ?thesis
    using assms b1 c
    by (auto simp: flipUp_def inv_flipUp_first inv_flipUp_second
             split: option.splits outcome.splits)
qed

lemma inv_flipDown: "inv b \<Longrightarrow> inv (snd (flipDown b row col))"
  by (auto simp: flipDown_def Let_def inv_flipDown_step)

subsection \<open>map, registerPlayer and the constructor keep the invariant\<close>

lemma inv_put_card:
  "inv b \<Longrightarrow> inv (b\<lparr>cards := put (cards b) r c (Some x)\<rparr>)"
  by (auto simp: inv_def dims_ok_def grid_inv_def put_nth)

lemma inv_map_cell: "inv (fst s) \<Longrightarrow> inv (fst (map_cell f r c s))"
  by (cases s) (auto simp: map_cell_def inv_put_card split: option.splits)

lemma inv_map_row: "inv (fst s) \<Longrightarrow> inv (fst (fold (\<lambda>c. map_cell f r c) cs s))"
  by (induction cs arbitrary: s) (simp_all add: inv_map_cell)

lemma inv_map_rows:
  "inv (fst s) \<Longrightarrow>
   inv (fst (fold (\<lambda>r s. if at (cards (fst s)) r = None then s
                           else fold (\<lambda>c. map_cell f r c) cs s) rs s))"
  by (induction rs arbitrary: s) (simp_all add: inv_map_row)

lemma inv_map_board: "inv b \<Longrightarrow> inv (snd (map_board b f))"
  using inv_map_rows[of "(b, [])" f "[0..<cols b]" "[0..<rows b]"]
  by (simp add: map_board_def map_loop_def Let_def)

lemma set_update:
  "kp \<in> set (AList.update k v xs) \<Longrightarrow> kp \<in> set xs \<or> kp = (k, v)"
  by (induction xs) (auto split: if_splits)

lemma inv_registerPlayer: "inv b \<Longrightarrow> inv (snd (registerPlayer b i d))"
  by (auto simp: registerPlayer_def Let_def inv_def dims_ok_def grid_inv_def
                 AList.update_conv' player_ok_def new_Player_def player_inv_def in_board_def
           dest!: set_update split: option.splits)

lemma inv_Board: "Board rs cs layout = Inr b \<Longrightarrow> inv b"
  by (auto simp: Board_def Let_def inv_def dims_ok_def grid_inv_def split: if_splits)

lemma inv_parseFromFile: "parseFromFile txt = Inr b \<Longrightarrow> inv b"
  by (auto simp: parseFromFile_def Let_def dest: inv_Board
           split: if_splits option.splits sum.splits)

lemma inv_after: "inv b \<Longrightarrow> inv (after b c)"
  by (cases c) (simp_all add: inv_registerPlayer inv_flipUp inv_flipDown inv_map_board)

lemma reachable_inv: "reachable b \<Longrightarrow> inv b"
  by (induction rule: reachable.induct) (auto dest: inv_parseFromFile inv_after)

subsection \<open>The queries on a board with its dimensions\<close>

lemma pictureAt_dims:
  "dims_ok b \<Longrightarrow> r < rows b \<Longrightarrow> c < cols b \<Longrightarrow> pictureAt b r c = Inr (cards b ! r ! c)"
  by (auto simp: pictureAt_def dims_ok_def at_def split: option.splits)

lemma isFaceUp_dims:
  "dims_ok b \<Longrightarrow> r < rows b \<Longrightarrow> c < cols b \<Longrightarrow> isFaceUp b r c = Inr (faceUp b ! r ! c)"
  by (auto simp: isFaceUp_def dims_ok_def at_def split: option.splits)

lemma controllerAt_dims:
  "dims_ok b \<Longrightarrow> r < rows b \<Longrightarrow> c < cols b \<Longrightarrow>
   controllerAt b r c = Inr (controller b ! r ! c)"
  by (auto simp: controllerAt_def dims_ok_def at_def split: option.splits)

lemma listPlayers_iff: "q \<in> set (listPlayers b) \<longleftrightarrow> map_of (players b) q \<noteq> None"
  by (simp add: listPlayers_def map_of_eq_None_iff)

lemma inv_cell_inv:
  assumes "inv b" "r < rows b" "c < cols b"
  shows "cell_inv b r c"
proof -
  have d: "dims_ok b" using assms(1) by (simp add: inv_def)
  have g: "faceUp b ! r ! c \<longrightarrow> cards b ! r ! c \<noteq> None"
    "\<forall>q. controller b ! r ! c = Some q \<longrightarrow> faceUp b ! r ! c \<and> map_of (players b) q \<noteq> None"
    using assms by (auto simp: inv_def grid_inv_def)
  show ?thesis
    using g
    by (auto simp: cell_inv_def pictureAt_dims[OF d assms(2,3)] isFaceUp_dims[OF d assms(2,3)]
                   controllerAt_dims[OF d assms(2,3)] listPlayers_iff)
qed

lemma inv_spec_inv: "inv b \<Longrightarrow> spec_inv b"
  by (auto simp: spec_inv_def inv_cell_inv) (auto simp: inv_def player_ok_def)

subsection \<open>Numbers and their digits\<close>

lemma digit_char: "is_digit d \<Longrightarrow> char_of (48 + (of_char d - 48 :: nat)) = d"
  by (simp add: is_digit_def)

lemma digit_value: "is_digit d \<Longrightarrow> (of_char d - 48 :: nat) < 10"
  by (auto simp: is_digit_def)

lemma Number_snoc: "Number (ds @ [d]) = 10 * Number ds + (of_char d - 48)"
  by (simp add: Number_def)

lemma zero_digit: "is_digit d \<Longrightarrow> (of_char d - 48 :: nat) = 0 \<Longrightarrow> d = CHR ''0''"
proof -
  assume "is_digit d" "(of_char d - 48 :: nat) = 0"
  then have "(of_char d :: nat) = of_char CHR ''0''" by (simp add: is_digit_def)
  then show ?thesis by (simp only: of_char_eq_iff)
qed

lemma show_nat_Number:
  "ds \<noteq> [] \<Longrightarrow> list_all is_digit ds \<Longrightarrow> hd ds \<noteq> CHR ''0'' \<Longrightarrow>
   0 < Number ds \<and> show_nat (Number ds) = ds"
proof (induction ds rule: rev_nonempty_induct)
  case (single d)
  then have d: "is_digit d" "d \<noteq> CHR ''0''" by simp_all
  have "Number [d] = of_char d - 48" by (simp add: Number_def)
  moreover have "(of_char d - 48 :: nat) \<noteq> 0"
    using zero_digit[OF d(1)] d(2) by blast
  ultimately show ?case
    using digit_char[OF d(1)] digit_value[OF d(1)]
    by (simp add: show_nat.simps[of "of_char d - 48"])
next
  case (snoc d ds)
  then have ih: "0 < Number ds" "show_nat (Number ds) = ds" and d: "is_digit d"
    by (simp_all add: hd_append)
  let ?k = "of_char d - 48 :: nat"
  have k: "?k < 10" by (rule digit_value[OF d])
  have "show_nat (10 * Number ds + ?k) = show_nat (Number ds) @ [char_of (48 + ?k)]"
    using ih(1) k by (subst show_nat.simps) simp
  then show ?case
    using ih digit_char[OF d] by (simp add: Number_snoc)
qed

subsection \<open>Lines\<close>

lemma split_on_nonempty [simp]: "split_on c s \<noteq> []"
  by (induction s) (auto split: list.splits)

lemma join_cons_line: "join sep ((a # l) # ls) = a # join sep (l # ls)"
  by (cases ls) simp_all

lemma join_split_on: "join [c] (split_on c s) = s"
proof (induction s)
  case Nil
  then show ?case by simp
next
  case (Cons a s)
  obtain l ls where sp: "split_on c s = l # ls"
    by (cases "split_on c s") simp_all
  show ?case
    using Cons sp by (auto simp: join_cons_line)
qed

lemma split_on_snoc_sep: "split_on c (s @ [c]) = split_on c s @ [[]]"
  by (induction s) (auto split: list.splits)

lemma split_on_snoc:
  "a \<noteq> c \<Longrightarrow>
   split_on c (s @ [a]) = butlast (split_on c s) @ [last (split_on c s) @ [a]]"
  by (induction s) (auto split: list.splits)

lemma last_split_on: "last (split_on c s) = [] \<longleftrightarrow> s = [] \<or> last s = c"
proof (cases s rule: rev_cases)
  case Nil
  then show ?thesis by simp
next
  case (snoc ys y)
  show ?thesis
  proof (cases "y = c")
    case True
    then show ?thesis using snoc by (simp add: split_on_snoc_sep)
  next
    case False
    then show ?thesis using snoc by (simp add: split_on_snoc)
  qed
qed

lemma join_snoc_empty: "ls \<noteq> [] \<Longrightarrow> join sep (ls @ [[]]) = join sep ls @ sep"
  by (induction sep ls rule: join.induct) simp_all

text \<open>The text is its lines, each followed by its line feed.\<close>

lemma text_of_lines:
  assumes "lines0 = split_on LF n"
    and "lines1 = (if lines0 \<noteq> [] \<and> last lines0 = [] then butlast lines0 else lines0)"
    and "lines1 \<noteq> []"
  shows "(if n \<noteq> [] \<and> last n = LF then n else n @ [LF]) = join [LF] lines1 @ [LF]"
proof (cases "last lines0 = []")
  case True
  then have l0: "lines0 = lines1 @ [[]]"
    using assms(1,2) by (metis append_butlast_last_id split_on_nonempty)
  have "n = join [LF] lines0" using assms(1) by (simp add: join_split_on)
  then have n: "n = join [LF] lines1 @ [LF]"
    using l0 assms(3) by (simp add: join_snoc_empty)
  then show ?thesis by simp
next
  case False
  then have "lines1 = lines0" using assms(2) by simp
  moreover have "\<not> (n = [] \<or> last n = LF)"
    using False assms(1) by (simp add: last_split_on)
  moreover have "n = join [LF] lines0" using assms(1) by (simp add: join_split_on)
  ultimately show ?thesis by auto
qed

subsection \<open>The header\<close>

lemma digit_not_space: "is_digit d \<Longrightarrow> \<not> is_space d"
  by (auto simp: is_digit_def is_space_def)

lemma match_header_Some:
  assumes "match_header h = Some (m1, m2)"
  shows "h = m1 @ CHR ''x'' # m2" "m1 \<noteq> []" "list_all is_digit m1" "m2 \<noteq> []"
    "list_all is_digit m2"
proof -
  let ?rest = "dropWhile is_digit h"
  have m: "m1 = takeWhile is_digit h" "m2 = tl ?rest" "m1 \<noteq> []" "?rest \<noteq> []"
    "hd ?rest = CHR ''x''" "m2 \<noteq> []" "list_all is_digit m2"
    using assms by (auto simp: match_header_def Let_def split: if_splits)
  have "h = takeWhile is_digit h @ ?rest" by simp
  also have "?rest = CHR ''x'' # m2" using m(2,4,5) by (cases ?rest) simp_all
  finally show "h = m1 @ CHR ''x'' # m2" using m(1) by simp
  show "m1 \<noteq> []" "m2 \<noteq> []" "list_all is_digit m2" by (rule m)+
  show "list_all is_digit m1"
    unfolding m(1) list_all_iff using set_takeWhileD by fastforce
qed

lemma dropWhile_hd: "s \<noteq> [] \<Longrightarrow> \<not> P (hd s) \<Longrightarrow> dropWhile P s = s"
  by (cases s) simp_all

lemma trim_plain:
  assumes "match_header h = Some (m1, m2)"
  shows "trim h = h"
proof -
  note m = match_header_Some[OF assms]
  have "is_digit (hd h)" using m(1,2,3) by (cases m1) simp_all
  then have 1: "dropWhile is_space h = h"
    using m(1) by (intro dropWhile_hd digit_not_space) simp_all
  have "is_digit (last h)" using m(1,4,5) by (simp add: list_all_iff)
  then have "\<not> is_space (last h)" by (rule digit_not_space)
  moreover have "h \<noteq> []" using m(1) by simp
  ultimately have 2: "dropWhile is_space (rev h) = rev h"
    by (intro dropWhile_hd) (simp_all add: hd_rev)
  show ?thesis by (simp add: trim_def 1 2)
qed

lemma plain_header_line:
  assumes "plain_header h"
  obtains m1 m2 where "match_header h = Some (m1, m2)" "trim h = h"
    "show_nat (Number m1) @ ''x'' @ show_nat (Number m2) = h"
proof -
  obtain m1 m2 where mh: "match_header h = Some (m1, m2)"
    and z: "hd m1 \<noteq> CHR ''0''" "hd m2 \<noteq> CHR ''0''"
    using assms by (auto simp: plain_header_def split: option.splits)
  note m = match_header_Some[OF mh]
  have "show_nat (Number m1) = m1" "show_nat (Number m2) = m2"
    using show_nat_Number[OF m(2,3) z(1)] show_nat_Number[OF m(4,5) z(2)] by simp_all
  then have "show_nat (Number m1) @ ''x'' @ show_nat (Number m2) = h"
    using m(1) by simp
  then show ?thesis using that mh trim_plain[OF mh] by blast
qed

subsection \<open>The cells of a new board\<close>

lemma check_cards_layout: "check_cards i toks = Inr layout \<Longrightarrow> layout = map Some toks"
  by (induction toks arbitrary: i layout) (auto split: if_splits sum.splits)

lemma rows_of_layout:
  "rs * cs \<le> length xs \<Longrightarrow>
   concat (map (\<lambda>r. map (\<lambda>c. h (xs ! (r * cs + c))) [0..<cs]) [0..<rs]) =
   map h (take (rs * cs) xs)"
proof (induction rs)
  case 0
  then show ?case by simp
next
  case (Suc rs)
  have "map (\<lambda>c. h (xs ! (rs * cs + c))) [0..<cs] = map h (take cs (drop (rs * cs) xs))"
    using Suc.prems by (intro nth_equalityI) (simp_all add: add.commute)
  moreover have "take (Suc rs * cs) xs = take (rs * cs) xs @ take cs (drop (rs * cs) xs)"
  proof -
    have "Suc rs * cs = rs * cs + cs" by simp
    then show ?thesis by (simp only: take_add)
  qed
  ultimately show ?case using Suc by simp
qed

lemma picturesDump_Board:
  assumes "Board rs cs layout = Inr b" "length layout = rs * cs"
  shows "picturesDump b =
         join [LF] ((show_nat rs @ ''x'' @ show_nat cs) # map token_of layout) @ [LF]"
proof -
  have b: "rows b = rs" "cols b = cs"
    "cards b = map (\<lambda>r. map (\<lambda>c. case at layout (r * cs + c) of
                                     Some x \<Rightarrow> x | None \<Rightarrow> None) [0..<cs]) [0..<rs]"
    using assms(1) by (auto simp: Board_def Let_def split: if_splits)
  have inb: "r * cs + c < length layout" if "r < rs" "c < cs" for r c
  proof -
    have "r * cs + c < Suc r * cs" using that by simp
    also have "\<dots> \<le> rs * cs" using that(1) by (intro mult_le_mono1) simp
    finally show ?thesis using assms(2) by simp
  qed
  have rowsEq: "map (\<lambda>r. case at (cards b) r of
                    None \<Rightarrow> []
                  | Some cardsRow \<Rightarrow>
                      map (\<lambda>c. case at cardsRow c of Some (Some pic) \<Rightarrow> pic | _ \<Rightarrow> ''none'')
                        [0..<cols b]) [0..<rows b] =
        map (\<lambda>r. map (\<lambda>c. token_of (layout ! (r * cs + c))) [0..<cs]) [0..<rs]"
    unfolding b
    by (rule map_cong[OF refl])
       (auto simp: at_def inb token_of_def split: option.splits)
  show ?thesis
    unfolding picturesDump_def header_line_def rowsEq
    using rows_of_layout[of rs cs layout token_of] assms(2)
    by (simp add: b(1,2))
qed

subsection \<open>An accepted file\<close>

lemma parseFromFile_Inr:
  assumes "parseFromFile txt = Inr b"
  obtains lines1 m1 m2 layout where
    "lines1 = (let lines0 = split_on LF (replace_cr (replace_crlf txt))
               in if lines0 \<noteq> [] \<and> last lines0 = [] then butlast lines0 else lines0)"
    "lines1 \<noteq> []"
    "match_header (trim (hd lines1)) = Some (m1, m2)"
    "length (tl lines1) = Number m1 * Number m2"
    "check_cards 0 (tl lines1) = Inr layout"
    "Board (Number m1) (Number m2) layout = Inr b"
proof -
  define lines1 where
    "lines1 = (let lines0 = split_on LF (replace_cr (replace_crlf txt))
               in if lines0 \<noteq> [] \<and> last lines0 = [] then butlast lines0 else lines0)"
  have p: "parseFromFile txt =
     (if lines1 = [] then Inl InvalidFile
      else if trim (hd lines1) = [] then Inl MissingHeader
      else case match_header (trim (hd lines1)) of
             None \<Rightarrow> Inl InvalidHeader
           | Some (m1, m2) \<Rightarrow>
               if Number m1 < 1 \<or> Number m2 < 1 then Inl InvalidDimensions
               else if length (tl lines1) \<noteq> Number m1 * Number m2 then Inl WrongCardCount
               else case check_cards 0 (tl lines1) of
                      Inl e \<Rightarrow> Inl e
                    | Inr layout \<Rightarrow> Board (Number m1) (Number m2) layout)"
    unfolding parseFromFile_def lines1_def Let_def by (rule refl)
  from assms show ?thesis
    unfolding p using that[OF lines1_def]
    by (auto split: if_splits option.splits sum.splits)
qed

subsection \<open>A first flip on an empty cell\<close>

lemma map_entry_same:
  "map_of xs k = Some p \<Longrightarrow> f p = p \<Longrightarrow> AList.map_entry k f xs = xs"
  by (induction xs) (auto split: if_splits)

lemma clearCards_same:
  "firstCard p = None \<Longrightarrow> secondCard p = None \<Longrightarrow> clearCards p = p"
  by (cases p) (simp add: clearCards_def)

lemma cleanup_nothing:
  assumes "map_of (players b) k = Some p" "firstCard p = None" "secondCard p = None"
    and "map_of (lingering b) (ident p) = None \<or> map_of (lingering b) (ident p) = Some []"
  shows "cleanupPreviousPlay b k = (Done, b)"
proof -
  have "update_player b k clearCards = b"
    using map_entry_same[of "players b" k p clearCards] assms(1)
      clearCards_same[OF assms(2,3)]
    by (simp add: update_player_def)
  then show ?thesis
    using assms by (auto simp: cleanupPreviousPlay_def Let_def)
qed

text \<open>The cleanup empties cells and fills none.\<close>

lemma cell_put:
  "cell (put g r c v) r' c' =
     (if r' = r \<and> c' = c \<and> r < length g \<and> c < length (g ! r) then Some v else cell g r' c')"
  by (simp add: cell_eq put_nth)

lemma removeIfControlled_keeps_empty:
  "cell (cards b) r c = Some None \<Longrightarrow> cell (cards (removeIfControlled b i row col)) r c = Some None"
  by (simp add: removeIfControlled_def cell_put)

lemma cleanup_keeps_empty:
  assumes "cell (cards b) r c = Some None"
  shows "cell (cards (snd (cleanupPreviousPlay b k))) r c = Some None"
  using assms
  by (auto simp: cleanupPreviousPlay_def Let_def removeIfControlled_keeps_empty
           split: option.splits prod.splits sum.splits)

lemma cell_dims:
  "dims_ok b \<Longrightarrow> r < rows b \<Longrightarrow> c < cols b \<Longrightarrow>
   cell (cards b) r c = Some (cards b ! r ! c) \<and>
   cell (faceUp b) r c = Some (faceUp b ! r ! c) \<and>
   cell (controller b) r c = Some (controller b ! r ! c)"
  by (simp add: cell_eq dims_ok_def)

lemma rows_present:
  "dims_ok b \<Longrightarrow> r < rows b \<Longrightarrow>
   at (cards b) r \<noteq> None \<and> at (faceUp b) r \<noteq> None \<and> at (controller b) r \<noteq> None"
  by (simp add: dims_ok_def)

subsection \<open>Example boards\<close>

lemma reachable_run: "reachable b \<Longrightarrow> reachable (run b cs)"
  unfolding run_def by (induction cs arbitrary: b) (simp_all add: reachable.called)

lemma board_AABC_parsed:
  "parseFromFile ''2x2\<newline>A\<newline>A\<newline>B\<newline>C\<newline>'' = Inr board_AABC"
  by code_simp

lemma reachable_AABC: "reachable (run board_AABC cs)"
  by (rule reachable_run) (rule reachable.parsed[OF board_AABC_parsed])

subsection \<open>The loops of map\<close>

lemma map_cell_cards:
  "map_cell f r c (b\<lparr>cards := g\<rparr>, calls) =
     (case cell g r c of
        Some (Some pic) \<Rightarrow> (b\<lparr>cards := put g r c (Some (f pic))\<rparr>, calls @ [pic])
      | _ \<Rightarrow> (b\<lparr>cards := g\<rparr>, calls))"
  by (simp add: map_cell_def split: option.splits)

lemma map_row_step:
  assumes "k < length line"
  shows "(map (map_option f) (take k line) @ drop k line)[k := map_option f (line ! k)] =
         map (map_option f) (take (Suc k) line) @ drop (Suc k) line"
proof -
  have "drop k line = line ! k # drop (Suc k) line"
    using assms by (simp add: Cons_nth_drop_Suc)
  then show ?thesis
    using assms by (simp add: take_Suc_conv_app_nth list_update_append)
qed

lemma map_row_loop:
  assumes "r < length g" "k \<le> length (g ! r)"
  shows "fold (\<lambda>c. map_cell f r c) [0..<k] (b\<lparr>cards := g\<rparr>, calls) =
         (b\<lparr>cards := g[r := map (map_option f) (take k (g ! r)) @ drop k (g ! r)]\<rparr>,
          calls @ pictures_of_row (take k (g ! r)))"
  using assms(2)
proof (induction k)
  case 0
  then show ?case by (simp add: pictures_of_row_def)
next
  case (Suc k)
  let ?line = "g ! r"
  let ?line' = "map (map_option f) (take k ?line) @ drop k ?line"
  have k: "k < length ?line" using Suc.prems by simp
  have nth: "?line' ! k = ?line ! k"
    using k by (simp add: nth_append)
  have c: "cell (g[r := ?line']) r k = Some (?line ! k)"
    using assms(1) k nth by (simp add: cell_eq)
  have step: "?line'[k := map_option f (?line ! k)] =
        map (map_option f) (take (Suc k) ?line) @ drop (Suc k) ?line"
    by (rule map_row_step[OF k])
  have same: "?line ! k = None \<Longrightarrow> ?line' =
        map (map_option f) (take (Suc k) ?line) @ drop (Suc k) ?line"
    using step nth by (metis list_update_id option.map_disc_iff)
  have pics: "pictures_of_row (take (Suc k) ?line) =
        pictures_of_row (take k ?line) @ (case ?line ! k of None \<Rightarrow> [] | Some pic \<Rightarrow> [pic])"
    using k by (simp add: pictures_of_row_def take_Suc_conv_app_nth)
  show ?case
  proof (cases "?line ! k")
    case None
    then show ?thesis
      using Suc.IH k c same pics by (simp add: map_cell_cards)
  next
    case (Some pic)
    then show ?thesis
      using Suc.IH k c step pics assms(1) by (simp add: map_cell_cards put_def)
  qed
qed

lemma map_rows_loop:
  assumes "k \<le> length g" "\<forall>r<length g. length (g ! r) = n"
  shows "fold (\<lambda>r s. if at (cards (fst s)) r = None then s
                       else fold (\<lambda>c. map_cell f r c) [0..<n] s)
           [0..<k] (b\<lparr>cards := g\<rparr>, calls) =
         (b\<lparr>cards := map (map (map_option f)) (take k g) @ drop k g\<rparr>,
          calls @ concat (map pictures_of_row (take k g)))"
  using assms(1)
proof (induction k)
  case 0
  then show ?case by simp
next
  case (Suc k)
  let ?g' = "map (map (map_option f)) (take k g) @ drop k g"
  have k: "k < length g" using Suc.prems by simp
  have len: "length ?g' = length g" using k by simp
  have nth: "?g' ! k = g ! k" using k by (simp add: nth_append)
  have n: "length (g ! k) = n" using assms(2) k by simp
  have row: "fold (\<lambda>c. map_cell f k c) [0..<n] (b\<lparr>cards := ?g'\<rparr>, calls') =
      (b\<lparr>cards := ?g'[k := map (map_option f) (g ! k)]\<rparr>, calls' @ pictures_of_row (g ! k))"
    for calls'
    using map_row_loop[of k ?g' n f b calls'] k len nth n by simp
  have "drop k g = g ! k # drop (Suc k) g"
    using k by (simp add: Cons_nth_drop_Suc)
  then have g'': "?g'[k := map (map_option f) (g ! k)] =
      map (map (map_option f)) (take (Suc k) g) @ drop (Suc k) g"
    using k by (simp add: take_Suc_conv_app_nth list_update_append)
  show ?case
    using Suc.IH k len row g'' by (simp add: take_Suc_conv_app_nth)
qed

lemma map_loop_dims:
  assumes "dims_ok b"
  shows "map_loop b f = (mapped f b, pictures b)"
proof -
  have "map_loop b f =
      fold (\<lambda>r s. if at (cards (fst s)) r = None then s
                   else fold (\<lambda>c. map_cell f r c) [0..<cols b] s)
        [0..<length (cards b)] (b\<lparr>cards := cards b\<rparr>, [])"
    using assms by (simp add: map_loop_def dims_ok_def)
  also have "\<dots> = (b\<lparr>cards := map (map (map_option f)) (take (length (cards b)) (cards b))
                              @ drop (length (cards b)) (cards b)\<rparr>,
                    [] @ concat (map pictures_of_row (take (length (cards b)) (cards b))))"
    using assms by (intro map_rows_loop) (simp_all add: dims_ok_def)
  finally show ?thesis by (simp add: mapped_def pictures_def)
qed

subsection \<open>checkRep, conjunct by conjunct\<close>

lemma checkRep_iff:
  "checkRep b \<longleftrightarrow>
     1 \<le> rows b \<and> 1 \<le> cols b \<and> dims_ok b \<and>
     (\<forall>r<rows b. \<forall>c<cols b. cell_ok b r c) \<and> maps_ok b"
  by (auto simp: checkRep_def row_ok_def dims_ok_def maps_ok_def list_all_iff)

lemma checkRep_dims: "checkRep b \<Longrightarrow> dims_ok b"
  by (simp add: checkRep_iff)

lemma mapped_fields [simp]:
  "rows (mapped f b) = rows b"
  "cols (mapped f b) = cols b"
  "faceUp (mapped f b) = faceUp b"
  "controller (mapped f b) = controller b"
  "players (mapped f b) = players b"
  "waitingForControl (mapped f b) = waitingForControl b"
  "lingering (mapped f b) = lingering b"
  "changeResolvers (mapped f b) = changeResolvers b"
  "woken (mapped f b) = woken b"
  "delivered (mapped f b) = delivered b"
  by (simp_all add: mapped_def)

lemma mapped_cell:
  "dims_ok b \<Longrightarrow> r < rows b \<Longrightarrow> c < cols b \<Longrightarrow>
   cards (mapped f b) ! r ! c = map_option f (cards b ! r ! c)"
  by (simp add: mapped_def dims_ok_def)

lemma dims_ok_mapped: "dims_ok b \<Longrightarrow> dims_ok (mapped f b)"
  by (simp add: dims_ok_def mapped_def)

lemma pictures_iff:
  assumes "dims_ok b"
  shows "pic \<in> set (pictures b) \<longleftrightarrow> (\<exists>r<rows b. \<exists>c<cols b. cards b ! r ! c = Some pic)"
proof -
  have "pic \<in> set (pictures b) \<longleftrightarrow> (\<exists>line\<in>set (cards b). Some pic \<in> set line)"
    by (auto simp: pictures_def pictures_of_row_def split: option.splits)
  also have "\<dots> \<longleftrightarrow> (\<exists>r<rows b. Some pic \<in> set (cards b ! r))"
  proof -
    have "length (cards b) = rows b" using assms by (simp add: dims_ok_def)
    then show ?thesis by (metis in_set_conv_nth)
  qed
  also have "\<dots> \<longleftrightarrow> (\<exists>r<rows b. \<exists>c<cols b. cards b ! r ! c = Some pic)"
  proof -
    have "Some pic \<in> set (cards b ! r) \<longleftrightarrow> (\<exists>c<cols b. cards b ! r ! c = Some pic)"
      if "r < rows b" for r
      using assms that by (simp add: dims_ok_def in_set_conv_nth)
    then show ?thesis by blast
  qed
  finally show ?thesis .
qed

lemma cell_ok_mapped:
  assumes "dims_ok b" "r < rows b" "c < cols b" "cell_ok b r c"
  shows "cell_ok (mapped f b) r c \<longleftrightarrow>
         (\<forall>pic. cards b ! r ! c = Some pic \<longrightarrow> valid_token (f pic))"
  using assms(4)
  by (auto simp: cell_ok_def mapped_cell[OF assms(1-3)] valid_token_def split: option.splits)

lemma checkRep_mapped:
  assumes "checkRep b"
  shows "checkRep (mapped f b) \<longleftrightarrow> list_all (\<lambda>pic. valid_token (f pic)) (pictures b)"
proof -
  have d: "dims_ok b" by (rule checkRep_dims[OF assms])
  have ok: "\<forall>r<rows b. \<forall>c<cols b. cell_ok b r c" using assms by (simp add: checkRep_iff)
  have "checkRep (mapped f b) \<longleftrightarrow> (\<forall>r<rows b. \<forall>c<cols b. cell_ok (mapped f b) r c)"
    using assms dims_ok_mapped[OF d, of f] by (simp add: checkRep_iff maps_ok_def)
  also have "\<dots> \<longleftrightarrow> (\<forall>r<rows b. \<forall>c<cols b. \<forall>pic. cards b ! r ! c = Some pic \<longrightarrow> valid_token (f pic))"
    using ok cell_ok_mapped[OF d] by auto
  also have "\<dots> \<longleftrightarrow> (\<forall>pic\<in>set (pictures b). valid_token (f pic))"
    using pictures_iff[OF d] by (simp add: Ball_def) blast
  finally show ?thesis by (simp add: list_all_iff)
qed

subsection \<open>Steps that keep checkRep\<close>

lemma cell_ok_iff:
  "cell_ok b r c \<longleftrightarrow>
     (cards b ! r ! c = None \<longrightarrow> \<not> faceUp b ! r ! c \<and> controller b ! r ! c = None) \<and>
     (\<forall>pic. cards b ! r ! c = Some pic \<longrightarrow>
        valid_token pic \<and>
        (\<forall>q. controller b ! r ! c = Some q \<longrightarrow> map_of (players b) q \<noteq> None))"
  by (auto simp: cell_ok_def valid_token_def split: option.splits)

lemma checkRep_logs [simp]:
  "checkRep (b\<lparr>woken := wk\<rparr>) = checkRep b"
  "checkRep (b\<lparr>delivered := d\<rparr>) = checkRep b"
  by (simp_all add: checkRep_iff dims_ok_def cell_ok_iff maps_ok_def)

lemma list_all_delete: "list_all P xs \<Longrightarrow> list_all P (AList.delete k xs)"
  by (simp add: AList.delete_eq list_all_iff)



lemma checkRep_waiting_delete:
  "checkRep b \<Longrightarrow> checkRep (b\<lparr>waitingForControl := AList.delete key (waitingForControl b)\<rparr>)"
  by (simp add: checkRep_iff dims_ok_def cell_ok_iff maps_ok_def list_all_delete)



lemma checkRep_notifyChange: "checkRep b \<Longrightarrow> checkRep (notifyChange b)"
  by (simp add: notifyChange_def checkRep_iff dims_ok_def cell_ok_iff maps_ok_def)











subsection \<open>What cleanupPreviousPlay does\<close>

lemma pictureAt_Inr:
  "row < rows b \<Longrightarrow> col < cols b \<Longrightarrow> row < length (cards b) \<Longrightarrow>
   pictureAt b row col = Inr (case cell (cards b) row col of Some (Some pic) \<Rightarrow> Some pic | _ \<Rightarrow> None)"
  by (simp add: pictureAt_def cell_def at_def)

text \<open>The board after the loop over the lingering cards.\<close>

lemma cleanup_Done:
  assumes "inv b" "map_of (players b) k = Some p"
  shows "fst (cleanupPreviousPlay b k) = Done"
proof -
  have ok: "player_ok (rows b) (cols b) k p"
    using assms(1) map_of_SomeD[OF assms(2)] by (auto simp: inv_def)
  have d: "length (cards b) = rows b" using assms(1) by (simp add: inv_def dims_ok_def)
  have pa: "\<exists>x. pictureAt b1 r c = Inr x"
    if "rows b1 = rows b" "cols b1 = cols b" "cards b1 = cards b" "r < rows b" "c < cols b"
    for b1 r c
    using that d pictureAt_Inr[of r b1 c] by simp
  define b1 where "b1 = (case map_of (lingering b) (ident p) of
                      None \<Rightarrow> b
                    | Some linger \<Rightarrow>
                        if linger \<noteq> []
                        then (flipDownAll linger b)\<lparr>lingering := AList.delete (ident p) (lingering b)\<rparr>
                        else b)"
  have b1: "rows b1 = rows b" "cols b1 = cols b" "cards b1 = cards b"
    by (simp_all add: b1_def split: option.splits)
  show ?thesis
  proof (cases "firstCard p")
    case None
    then show ?thesis using assms(2) by (simp add: cleanupPreviousPlay_def Let_def)
  next
    case f: (Some fpos)
    obtain fr fc where fpos: "fpos = (fr, fc)" by (cases fpos)
    show ?thesis
    proof (cases "secondCard p")
      case None
      then show ?thesis using assms(2) f fpos by (simp add: cleanupPreviousPlay_def Let_def)
    next
      case s: (Some spos)
      obtain sr sc where spos: "spos = (sr, sc)" by (cases spos)
      have "fr < rows b" "fc < cols b" "sr < rows b" "sc < cols b"
        using ok f s fpos spos by (simp_all add: player_ok_def in_board_def)
      then obtain x y where "pictureAt b1 fr fc = Inr x" "pictureAt b1 sr sc = Inr y"
        using pa[OF b1] by blast
      then show ?thesis
        using assms(2) f s fpos spos
        by (simp add: cleanupPreviousPlay_def Let_def b1_def[symmetric])
    qed
  qed
qed

lemma cleanup_players:
  "fst (cleanupPreviousPlay b k) = Done \<Longrightarrow>
   players (snd (cleanupPreviousPlay b k)) = AList.map_entry k clearCards (players b)"
  by (auto simp: cleanupPreviousPlay_def Let_def update_player_def
           split: option.splits prod.splits sum.splits if_splits)

lemma cleanup_lingering:
  assumes "map_of (players b) k = Some p"
  shows "map_of (lingering (snd (cleanupPreviousPlay b k))) (ident p) = None \<or>
         map_of (lingering (snd (cleanupPreviousPlay b k))) (ident p) = Some []"
  using assms
  by (auto simp: cleanupPreviousPlay_def Let_def AList.delete_conv'
           split: option.splits prod.splits sum.splits if_splits)

lemma cleanup_idem:
  assumes "inv b" "map_of (players b) k = Some p"
  shows "cleanupPreviousPlay (snd (cleanupPreviousPlay b k)) k =
         (Done, snd (cleanupPreviousPlay b k))"
proof -
  let ?b1 = "snd (cleanupPreviousPlay b k)"
  have "players ?b1 = AList.map_entry k clearCards (players b)"
    by (rule cleanup_players[OF cleanup_Done[OF assms]])
  then have p1: "map_of (players ?b1) k = Some (clearCards p)"
    using assms(2) by (simp add: AList.map_of_map_entry)
  have "ident (clearCards p) = ident p" by (simp add: clearCards_def)
  then show ?thesis
    using cleanup_lingering[OF assms(2)]
    by (intro cleanup_nothing[OF p1]) (simp_all add: clearCards_def)
qed

lemma cleanup_player:
  assumes "inv b" "map_of (players b) k = Some p"
  shows "map_of (players (snd (cleanupPreviousPlay b k))) k = Some (clearCards p)"
  using cleanup_players[OF cleanup_Done[OF assms]] assms(2)
  by (simp add: AList.map_of_map_entry)

subsection \<open>The two branches of flipUp\<close>

lemma flipUp_first_flip:
  assumes "inv b" "map_of (players b) k = Some p" "row < rows b" "col < cols b"
    and "firstCard p = None \<or> secondCard p \<noteq> None"
  shows "flipUp b k row col = flipUp_first_rules (snd (cleanupPreviousPlay b k)) k row col"
proof -
  obtain b1 where c: "cleanupPreviousPlay b k = (Done, b1)"
    using cleanup_Done[OF assms(1,2)] by (cases "cleanupPreviousPlay b k") simp
  have c1: "cleanupPreviousPlay b1 k = (Done, b1)"
    using cleanup_idem[OF assms(1,2)] c by simp
  have p1: "map_of (players b1) k = Some (clearCards p)"
    using cleanup_player[OF assms(1,2)] c by simp
  have d: "dims_ok b" using assms(1) by (simp add: inv_def)
  show ?thesis
  proof (cases "secondCard p")
    case None
    then have "firstCard p = None" using assms(5) by simp
    then show ?thesis
      using assms(2-4) None rows_present[OF d assms(3)] c
      by (simp add: flipUp_def flipUp_first_def isFirstCardFlip_def)
  next
    case (Some a)
    then show ?thesis
      using assms(2-4) rows_present[OF d assms(3)] c c1 p1
      by (simp add: flipUp_def flipUp_first_def isFirstCardFlip_def clearCards_def)
  qed
qed

lemma flipUp_second_flip:
  assumes "dims_ok b" "map_of (players b) k = Some p" "row < rows b" "col < cols b"
    and "firstCard p \<noteq> None" "secondCard p = None"
  shows "flipUp b k row col = flipUp_second b k row col"
  using assms(2-6) rows_present[OF assms(1,3)]
  by (auto simp: flipUp_def isFirstCardFlip_def)

subsection \<open>Rules 1-B and 1-C\<close>

lemma render_cell_notifyChange: "render_cell (notifyChange b) q r c = render_cell b q r c"
  by (simp add: render_cell_def up_at_def cong: option.case_cong)

lemma render_notifyChange [simp]: "render (notifyChange b) q = render b q"
  by (simp add: render_def render_cell_notifyChange header_line_def)

lemma queries_notifyChange [simp]:
  "pictureAt (notifyChange b) r c = pictureAt b r c"
  "isFaceUp (notifyChange b) r c = isFaceUp b r c"
  "controllerAt (notifyChange b) r c = controllerAt b r c"
  by (simp_all add: pictureAt_def isFaceUp_def controllerAt_def)


lemma dims_ok_frame:
  "dims_ok b \<Longrightarrow> rows b' = rows b \<Longrightarrow> cols b' = cols b \<Longrightarrow>
   length (cards b') = length (cards b) \<Longrightarrow> length (faceUp b') = length (faceUp b) \<Longrightarrow>
   length (controller b') = length (controller b) \<Longrightarrow>
   (\<And>r. length (cards b' ! r) = length (cards b ! r)) \<Longrightarrow>
   (\<And>r. length (faceUp b' ! r) = length (faceUp b ! r)) \<Longrightarrow>
   (\<And>r. length (controller b' ! r) = length (controller b ! r)) \<Longrightarrow> dims_ok b'"
  by (simp add: dims_ok_def)




subsection \<open>Releases wake the waiters\<close>









lemma flipDownIfUncontrolled_quiet [simp]:
  "woken (flipDownIfUncontrolled b r c) = woken b"
  "waitingForControl (flipDownIfUncontrolled b r c) = waitingForControl b"
  "controller (flipDownIfUncontrolled b r c) = controller b"
  by simp_all






subsection \<open>A failed second flip\<close>

lemma fail_second_frame [simp]:
  "rows (fail_second b k r c) = rows b"
  "cols (fail_second b k r c) = cols b"
  by (simp_all add: fail_second_def)




subsection \<open>Rule 3-A on a pair that the player holds\<close>

lemma removeIfControlled_held:
  assumes "cell (controller b) r c = Some (Some k)" "r < length (cards b)" "r < length (faceUp b)"
  shows "removeIfControlled b k r c =
         notifyWaiters (b\<lparr>cards := put (cards b) r c None, faceUp := put (faceUp b) r c False,
                          controller := put (controller b) r c None\<rparr>) r c"
  using assms by (auto simp: removeIfControlled_def cell_eq split: if_splits)

lemma first_rules_frame:
  fixes b1 k row col
  defines "b2 \<equiv> snd (flipUp_first_rules b1 k row col)"
  assumes "cell (cards b1) r c = Some None"
  shows "cards b2 = cards b1" "faceUp b2 ! r ! c = faceUp b1 ! r ! c"
    "controller b2 ! r ! c = controller b1 ! r ! c"
    "map_of (waitingForControl b2) (r, c) = map_of (waitingForControl b1) (r, c)"
    "woken b2 = woken b1" "rows b2 = rows b1" "cols b2 = cols b1"
    "length (cards b2) = length (cards b1)"
proof -
  show "cards b2 = cards b1" "woken b2 = woken b1" "rows b2 = rows b1" "cols b2 = cols b1"
    "length (cards b2) = length (cards b1)"
    by (simp_all add: b2_def flipUp_first_rules_def Let_def)
  show "faceUp b2 ! r ! c = faceUp b1 ! r ! c"
    "controller b2 ! r ! c = controller b1 ! r ! c"
    "map_of (waitingForControl b2) (r, c) = map_of (waitingForControl b1) (r, c)"
    using assms(2)
    by (auto simp: b2_def flipUp_first_rules_def Let_def put_nth AList.update_conv')
qed

lemma cleanup_removes_pair:
  assumes "inv b" "map_of (players b) k = Some p"
    and "firstCard p = Some (fr, fc)" "secondCard p = Some (sr, sc)" "(fr, fc) \<noteq> (sr, sc)"
    and "controller b ! fr ! fc = Some k" "controller b ! sr ! sc = Some k"
    and "cards b ! fr ! fc = cards b ! sr ! sc"
  defines "b1 \<equiv> snd (cleanupPreviousPlay b k)"
  shows "cards b1 ! fr ! fc = None \<and> \<not> faceUp b1 ! fr ! fc \<and> controller b1 ! fr ! fc = None \<and>
         cards b1 ! sr ! sc = None \<and> \<not> faceUp b1 ! sr ! sc \<and> controller b1 ! sr ! sc = None \<and>
         map_of (waitingForControl b1) (fr, fc) = None \<and>
         map_of (waitingForControl b1) (sr, sc) = None \<and>
         woken b1 = woken b @ waiters_of b fr fc @ waiters_of b sr sc"
proof -
  have ok: "player_ok (rows b) (cols b) k p"
    using assms(1) map_of_SomeD[OF assms(2)] by (auto simp: inv_def)
  then have idp: "ident p = k" and inb: "fr < rows b" "fc < cols b" "sr < rows b" "sc < cols b"
    using assms(3,4) by (simp_all add: player_ok_def in_board_def)
  define b0 where "b0 = (case map_of (lingering b) k of
                      None \<Rightarrow> b
                    | Some linger \<Rightarrow>
                        if linger \<noteq> []
                        then (flipDownAll linger b)\<lparr>lingering := AList.delete k (lingering b)\<rparr>
                        else b)"
  have same: "rows b0 = rows b" "cols b0 = cols b" "cards b0 = cards b"
    "controller b0 = controller b" "woken b0 = woken b"
    "waitingForControl b0 = waitingForControl b"
    by (simp_all add: b0_def split: option.splits)
  have "inv b0"
    using assms(1) by (auto simp: b0_def inv_flipDownAll split: option.splits)
  then have d0: "dims_ok b0" by (simp add: inv_def)
  have d: "dims_ok b" using assms(1) by (simp add: inv_def)
  have up: "faceUp b ! fr ! fc" using assms(1,6) inb by (auto simp: inv_def grid_inv_def)
  then have card: "cards b ! fr ! fc \<noteq> None"
    using assms(1) inb by (auto simp: inv_def grid_inv_def)
  have len: "fr < length (cards b0)" "fc < length (cards b0 ! fr)"
    "fr < length (faceUp b0)" "fc < length (faceUp b0 ! fr)"
    "fr < length (controller b0)" "fc < length (controller b0 ! fr)"
    "sr < length (cards b0)" "sc < length (cards b0 ! sr)"
    "sr < length (faceUp b0)" "sc < length (faceUp b0 ! sr)"
    "sr < length (controller b0)" "sc < length (controller b0 ! sr)"
    using d0 inb same(1,2) by (simp_all add: dims_ok_def)
  have pa: "pictureAt b0 fr fc = Inr (cards b ! fr ! fc)"
    "pictureAt b0 sr sc = Inr (cards b ! sr ! sc)"
    using pictureAt_dims[OF d0] inb same by simp_all
  define bA where "bA = removeIfControlled b0 k fr fc"
  have A: "bA = notifyWaiters (b0\<lparr>cards := put (cards b0) fr fc None,
                                   faceUp := put (faceUp b0) fr fc False,
                                   controller := put (controller b0) fr fc None\<rparr>) fr fc"
    unfolding bA_def using assms(6) len same
    by (intro removeIfControlled_held) (simp_all add: cell_eq)
  have ctrlA: "cell (controller bA) sr sc = Some (Some k)"
    using assms(5,7) len same by (auto simp: A cell_eq put_nth)
  define bB where "bB = removeIfControlled bA k sr sc"
  have B: "bB = notifyWaiters (bA\<lparr>cards := put (cards bA) sr sc None,
                                   faceUp := put (faceUp bA) sr sc False,
                                   controller := put (controller bA) sr sc None\<rparr>) sr sc"
    unfolding bB_def using ctrlA len
    by (intro removeIfControlled_held) (simp_all add: A)
  have "cleanupPreviousPlay b k = (Done, update_player bB k clearCards)"
    using assms(2,3,4,8) card idp pa
    by (simp add: cleanupPreviousPlay_def Let_def b0_def[symmetric] bA_def bB_def)
  then have b1: "b1 = update_player bB k clearCards" by (simp add: b1_def)
  have wA: "waiters_of bA sr sc = waiters_of b sr sc"
    using assms(5) same by (auto simp: A waiters_of_def notifyWaiters_def)
  have wk: "woken bB = woken b @ waiters_of b fr fc @ waiters_of b sr sc"
    using wA same by (simp add: B notifyWaiters_def waiters_of_def[symmetric])
       (simp add: A notifyWaiters_def waiters_of_def)
  have wt: "waitingForControl bB =
      AList.delete (sr, sc) (AList.delete (fr, fc) (waitingForControl b))"
    using same by (simp add: B A notifyWaiters_def)
  have grids: "cards bB = put (put (cards b) fr fc None) sr sc None"
    "faceUp bB = put (put (faceUp b0) fr fc False) sr sc False"
    "controller bB = put (put (controller b) fr fc None) sr sc None"
    using same by (simp_all add: B A)
  show ?thesis
    using len same assms(5)
    by (simp add: b1 wk wt grids put_nth AList.delete_conv')
qed

text \<open>What a second flip that returns with the second card still controlled has done.\<close>

lemma second_flip_matched:
  assumes "dims_ok b" "map_of (players b) k = Some p"
    and "firstCard p = Some (fr, fc)" "secondCard p = None"
    and "flipUp b k row col = (Done, b1)" "controllerAt b1 row col = Inr (Some k)"
  shows "map_of (players b1) k = Some (recordFlip (setSecondCard (row, col) p))"
    and "(fr, fc) \<noteq> (row, col)" and "pictureAt b1 fr fc = pictureAt b1 row col"
    and "rows b1 = rows b" and "cols b1 = cols b"
proof -
  have inb: "row < rows b \<and> col < cols b"
  proof (rule ccontr)
    assume "\<not> (row < rows b \<and> col < cols b)"
    then have "flipUp b k row col = (Threw OutOfBounds, b)" by (auto simp: flipUp_def)
    then show False using assms(5) by simp
  qed
  then have r: "row < rows b" "col < cols b" by simp_all
  have s: "flipUp_second b k row col = (Done, b1)"
    using flipUp_second_flip[OF assms(1,2) r _ assms(4)] assms(3,5) by simp
  show ne: "(fr, fc) \<noteq> (row, col)"
    using s assms(2,3) by (auto simp: flipUp_second_def)
  define b2 where "b2 = update_player
      ((if \<not> up_at b row col then b\<lparr>faceUp := put (faceUp b) row col True\<rparr> else b)
         \<lparr>controller := put (controller b) row col (Some k)\<rparr>)
      k (\<lambda>p. recordFlip (setSecondCard (row, col) p))"
  define b4 where "b4 = relinquish b2 k fr fc"
  define b5 where "b5 = notifyWaiters (b4\<lparr>controller := put (controller b4) row col None\<rparr>) row col"
  have d2: "dims_ok b2" using assms(1) by (rule dims_ok_frame) (simp_all add: b2_def)
  have r2: "rows b2 = rows b" "cols b2 = cols b" "cards b2 = cards b"
    by (simp_all add: b2_def)
  have d5: "dims_ok b5" using d2 by (rule dims_ok_frame) (simp_all add: b5_def b4_def relinquish_def)
  have r5: "rows b5 = rows b" "cols b5 = cols b"
    by (simp_all add: b5_def b4_def r2)
  have c5: "controllerAt b5 row col = Inr None"
    using controllerAt_dims[OF d5, of row col] r r5 d5
    by (simp add: b5_def put_nth dims_ok_def)
  have eq: "flipUp_second b k row col =
     (if fr = row \<and> fc = col then (Threw SameCardTwice, fail_second b k fr fc)
      else if cell (cards b) row col = Some None
      then (Threw EmptySpace, fail_second b k fr fc)
      else if up_at b row col \<and> cell (controller b) row col \<noteq> Some None
      then (Threw Controlled, fail_second b k fr fc)
      else case pictureAt b2 fr fc of
             Inl e \<Rightarrow> (Threw e, b2)
           | Inr firstPic \<Rightarrow>
               if checkRep (if Some firstPic = cell (cards b) row col \<and> firstPic \<noteq> None
                            then b2 else b5)
               then (Done, notifyChange
                      (if Some firstPic = cell (cards b) row col \<and> firstPic \<noteq> None
                       then b2 else b5))
               else (Threw RepInvariantViolated,
                     if Some firstPic = cell (cards b) row col \<and> firstPic \<noteq> None
                     then b2 else b5))"
    using assms(2,3)
    by (auto simp: flipUp_second_def Let_def b2_def b4_def b5_def split: sum.splits)
  obtain firstPic where s2: "pictureAt b2 fr fc = Inr firstPic"
    "b1 = notifyChange (if Some firstPic = cell (cards b) row col \<and> firstPic \<noteq> None then b2 else b5)"
    using s unfolding eq
    by (cases "pictureAt b2 fr fc") (auto split: if_splits)
  have m: "Some firstPic = cell (cards b) row col \<and> firstPic \<noteq> None"
    using s2(2) c5 assms(6) by (auto split: if_splits)
  then have b1: "b1 = notifyChange b2" using s2(2) by simp
  show "rows b1 = rows b" "cols b1 = cols b" by (simp_all add: b1 r2)
  show "map_of (players b1) k = Some (recordFlip (setSecondCard (row, col) p))"
    using assms(2) by (simp add: b1 b2_def map_of_update_player)
  have "pictureAt b2 row col = Inr firstPic"
    using m pictureAt_dims[OF d2, of row col] cell_dims[OF assms(1) r] r r2 by simp
  then show "pictureAt b1 fr fc = pictureAt b1 row col"
    using s2(1) by (simp add: b1)
qed

subsection \<open>What map does\<close>

lemma map_board_eq:
  assumes "checkRep b"
  shows "map_loop b f = (mapped f b, pictures b) \<and>
         map_board b f =
           (if list_all (\<lambda>pic. valid_token (f pic)) (pictures b)
            then (Done, notifyChange (mapped f b))
            else (Threw RepInvariantViolated, mapped f b))"
  using checkRep_mapped[OF assms, of f] map_loop_dims[OF checkRep_dims[OF assms], of f]
  by (simp add: map_board_def)

section \<open>The claims\<close>

text \<open>
  C1: every board a program can hold (parsed from a file, then after any calls of
  \<^verbatim>\<open>registerPlayer\<close>, \<^verbatim>\<open>flipUp\<close>, \<^verbatim>\<open>flipDown\<close>, \<^verbatim>\<open>map\<close> and \<^verbatim>\<open>addChangeWatcher\<close>, whether they
  return, throw or park) satisfies the invariants: an empty cell is face down and has no
  controller; a controlled cell is face up, holds a card and its controller is a
  registered player; a player without a first card has no second card.
\<close>

theorem reachable_spec_inv: "reachable b \<Longrightarrow> spec_inv b"
  by (rule inv_spec_inv) (rule reachable_inv)

theorem reachable_spec_inv_witness:
  "reachable
     (after (after \<lparr>rows = 1, cols = 2, cards = [[Some ''A'', Some ''B'']],
                    faceUp = [[False, False]], controller = [[None, None]], players = [],
                    waitingForControl = [], lingering = [], changeResolvers = [],
                    woken = [], delivered = []\<rparr>
               (RegisterPlayer ''p1'' None)) (FlipUp ''p1'' 0 0)) \<and>
   spec_inv
     (after (after \<lparr>rows = 1, cols = 2, cards = [[Some ''A'', Some ''B'']],
                    faceUp = [[False, False]], controller = [[None, None]], players = [],
                    waitingForControl = [], lingering = [], changeResolvers = [],
                    woken = [], delivered = []\<rparr>
               (RegisterPlayer ''p1'' None)) (FlipUp ''p1'' 0 0)) \<and>
   controllerAt
     (after (after \<lparr>rows = 1, cols = 2, cards = [[Some ''A'', Some ''B'']],
                    faceUp = [[False, False]], controller = [[None, None]], players = [],
                    waitingForControl = [], lingering = [], changeResolvers = [],
                    woken = [], delivered = []\<rparr>
               (RegisterPlayer ''p1'' None)) (FlipUp ''p1'' 0 0)) 0 0 = Inr (Some ''p1'')"
proof -
  have "parseFromFile ''1x2\<newline>A\<newline>B\<newline>'' =
      Inr \<lparr>rows = 1, cols = 2, cards = [[Some ''A'', Some ''B'']],
            faceUp = [[False, False]], controller = [[None, None]], players = [],
            waitingForControl = [], lingering = [], changeResolvers = [],
            woken = [], delivered = []\<rparr>"
    by code_simp
  then have r: "reachable
     (after (after \<lparr>rows = 1, cols = 2, cards = [[Some ''A'', Some ''B'']],
                    faceUp = [[False, False]], controller = [[None, None]], players = [],
                    waitingForControl = [], lingering = [], changeResolvers = [],
                    woken = [], delivered = []\<rparr>
               (RegisterPlayer ''p1'' None)) (FlipUp ''p1'' 0 0))"
    by (intro reachable.called reachable.parsed)
  moreover have "controllerAt
     (after (after \<lparr>rows = 1, cols = 2, cards = [[Some ''A'', Some ''B'']],
                    faceUp = [[False, False]], controller = [[None, None]], players = [],
                    waitingForControl = [], lingering = [], changeResolvers = [],
                    woken = [], delivered = []\<rparr>
               (RegisterPlayer ''p1'' None)) (FlipUp ''p1'' 0 0)) 0 0 = Inr (Some ''p1'')"
    by code_simp
  ultimately show ?thesis
    using reachable_spec_inv[OF r] by simp
qed

text \<open>
  C2, as amended: on a reachable board, let a player have a recorded first and second card,
  two different cells that the player still controls and that show the same picture, which
  is how a second flip by rule 2-D leaves a matching pair. Then the player's next call of
  \<^verbatim>\<open>flipUp\<close>, on any cell of the board and however it ends, leaves both cells empty, face
  down and without controller, with the queues of both cells removed and their waiters
  woken, those of the first card before those of the second.
\<close>

theorem held_pair_removed:
  assumes "reachable b" "map_of (players b) k = Some p"
    and "firstCard p = Some (fr, fc)" "secondCard p = Some (sr, sc)" "(fr, fc) \<noteq> (sr, sc)"
    and "controllerAt b fr fc = Inr (Some k)" "controllerAt b sr sc = Inr (Some k)"
    and "pictureAt b fr fc = pictureAt b sr sc"
    and "row < rows b" "col < cols b"
  shows "(let b' = snd (flipUp b k row col)
          in pictureAt b' fr fc = Inr None \<and> isFaceUp b' fr fc = Inr False \<and>
             controllerAt b' fr fc = Inr None \<and>
             pictureAt b' sr sc = Inr None \<and> isFaceUp b' sr sc = Inr False \<and>
             controllerAt b' sr sc = Inr None \<and>
             map_of (waitingForControl b') (fr, fc) = None \<and>
             map_of (waitingForControl b') (sr, sc) = None \<and>
             woken b' = woken b @ waiters_of b fr fc @ waiters_of b sr sc)"
proof -
  have i: "inv b" by (rule reachable_inv[OF assms(1)])
  then have d: "dims_ok b" by (simp add: inv_def)
  have ok: "player_ok (rows b) (cols b) k p"
    using i map_of_SomeD[OF assms(2)] by (auto simp: inv_def)
  then have inb: "fr < rows b" "fc < cols b" "sr < rows b" "sc < cols b"
    using assms(3,4) by (simp_all add: player_ok_def in_board_def)
  have held: "controller b ! fr ! fc = Some k" "controller b ! sr ! sc = Some k"
    "cards b ! fr ! fc = cards b ! sr ! sc"
    using assms(6-8) controllerAt_dims[OF d] pictureAt_dims[OF d] inb by simp_all
  define b1 where "b1 = snd (cleanupPreviousPlay b k)"
  define b' where "b' = snd (flipUp b k row col)"
  have f: "b' = snd (flipUp_first_rules b1 k row col)"
    unfolding b'_def b1_def
    using flipUp_first_flip[OF i assms(2,9,10)] assms(4) by simp
  note rm = cleanup_removes_pair[OF i assms(2-5) held, folded b1_def]
  have i1: "inv b1" unfolding b1_def by (rule inv_cleanup[OF i])
  then have d1: "dims_ok b1" by (simp add: inv_def)
  have r1: "rows b1 = rows b" "cols b1 = cols b" by (simp_all add: b1_def)
  have e: "cell (cards b1) fr fc = Some None" "cell (cards b1) sr sc = Some None"
    using rm cell_dims[OF d1] inb r1 by simp_all
  note fr1 = first_rules_frame[OF e(1), of k row col, folded f]
  note fr2 = first_rules_frame[OF e(2), of k row col, folded f]
  have "b' = after b (FlipUp k row col)" by (simp add: b'_def)
  then have "reachable b'" using reachable.called[OF assms(1)] by blast
  then have d': "dims_ok b'" using reachable_inv by (auto simp: inv_def)
  have inb': "fr < rows b'" "fc < cols b'" "sr < rows b'" "sc < cols b'"
    using inb r1 fr1(6,7) by simp_all
  have "pictureAt b' fr fc = Inr None \<and> isFaceUp b' fr fc = Inr False \<and>
        controllerAt b' fr fc = Inr None \<and>
        pictureAt b' sr sc = Inr None \<and> isFaceUp b' sr sc = Inr False \<and>
        controllerAt b' sr sc = Inr None \<and>
        map_of (waitingForControl b') (fr, fc) = None \<and>
        map_of (waitingForControl b') (sr, sc) = None \<and>
        woken b' = woken b @ waiters_of b fr fc @ waiters_of b sr sc"
    using rm fr1 fr2
    by (simp add: pictureAt_dims[OF d' inb'(1,2)] pictureAt_dims[OF d' inb'(3,4)]
          isFaceUp_dims[OF d' inb'(1,2)] isFaceUp_dims[OF d' inb'(3,4)]
          controllerAt_dims[OF d' inb'(1,2)] controllerAt_dims[OF d' inb'(3,4)])
  then show ?thesis by (simp add: Let_def b'_def)
qed

theorem held_pair_removed_witness:
  "reachable (run board_AABC
      [RegisterPlayer ''p1'' None, RegisterPlayer ''p2'' None, RegisterPlayer ''p3'' None,
       FlipUp ''p1'' 0 0, FlipUp ''p2'' 0 0, FlipUp ''p1'' 0 1, FlipUp ''p3'' 1 0]) \<and>
   controllerAt (run board_AABC
      [RegisterPlayer ''p1'' None, RegisterPlayer ''p2'' None, RegisterPlayer ''p3'' None,
       FlipUp ''p1'' 0 0, FlipUp ''p2'' 0 0, FlipUp ''p1'' 0 1, FlipUp ''p3'' 1 0]) 0 0 =
     Inr (Some ''p1'') \<and>
   controllerAt (run board_AABC
      [RegisterPlayer ''p1'' None, RegisterPlayer ''p2'' None, RegisterPlayer ''p3'' None,
       FlipUp ''p1'' 0 0, FlipUp ''p2'' 0 0, FlipUp ''p1'' 0 1, FlipUp ''p3'' 1 0]) 0 1 =
     Inr (Some ''p1'') \<and>
   pictureAt (run board_AABC
      [RegisterPlayer ''p1'' None, RegisterPlayer ''p2'' None, RegisterPlayer ''p3'' None,
       FlipUp ''p1'' 0 0, FlipUp ''p2'' 0 0, FlipUp ''p1'' 0 1, FlipUp ''p3'' 1 0]) 0 0 =
     Inr (Some ''A'') \<and>
   pictureAt (run board_AABC
      [RegisterPlayer ''p1'' None, RegisterPlayer ''p2'' None, RegisterPlayer ''p3'' None,
       FlipUp ''p1'' 0 0, FlipUp ''p2'' 0 0, FlipUp ''p1'' 0 1, FlipUp ''p3'' 1 0]) 0 1 =
     Inr (Some ''A'') \<and>
   waitingForControl (run board_AABC
      [RegisterPlayer ''p1'' None, RegisterPlayer ''p2'' None, RegisterPlayer ''p3'' None,
       FlipUp ''p1'' 0 0, FlipUp ''p2'' 0 0, FlipUp ''p1'' 0 1, FlipUp ''p3'' 1 0]) =
     [((0, 0), [''p2''])] \<and>
   pictureAt (snd (flipUp (run board_AABC
      [RegisterPlayer ''p1'' None, RegisterPlayer ''p2'' None, RegisterPlayer ''p3'' None,
       FlipUp ''p1'' 0 0, FlipUp ''p2'' 0 0, FlipUp ''p1'' 0 1, FlipUp ''p3'' 1 0])
      ''p1'' 1 1)) 0 0 = Inr None \<and>
   pictureAt (snd (flipUp (run board_AABC
      [RegisterPlayer ''p1'' None, RegisterPlayer ''p2'' None, RegisterPlayer ''p3'' None,
       FlipUp ''p1'' 0 0, FlipUp ''p2'' 0 0, FlipUp ''p1'' 0 1, FlipUp ''p3'' 1 0])
      ''p1'' 1 1)) 0 1 = Inr None \<and>
   controllerAt (snd (flipUp (run board_AABC
      [RegisterPlayer ''p1'' None, RegisterPlayer ''p2'' None, RegisterPlayer ''p3'' None,
       FlipUp ''p1'' 0 0, FlipUp ''p2'' 0 0, FlipUp ''p1'' 0 1, FlipUp ''p3'' 1 0])
      ''p1'' 1 1)) 0 0 = Inr None \<and>
   controllerAt (snd (flipUp (run board_AABC
      [RegisterPlayer ''p1'' None, RegisterPlayer ''p2'' None, RegisterPlayer ''p3'' None,
       FlipUp ''p1'' 0 0, FlipUp ''p2'' 0 0, FlipUp ''p1'' 0 1, FlipUp ''p3'' 1 0])
      ''p1'' 1 1)) 0 1 = Inr None \<and>
   waitingForControl (snd (flipUp (run board_AABC
      [RegisterPlayer ''p1'' None, RegisterPlayer ''p2'' None, RegisterPlayer ''p3'' None,
       FlipUp ''p1'' 0 0, FlipUp ''p2'' 0 0, FlipUp ''p1'' 0 1, FlipUp ''p3'' 1 0])
      ''p1'' 1 1)) = [] \<and>
   woken (snd (flipUp (run board_AABC
      [RegisterPlayer ''p1'' None, RegisterPlayer ''p2'' None, RegisterPlayer ''p3'' None,
       FlipUp ''p1'' 0 0, FlipUp ''p2'' 0 0, FlipUp ''p1'' 0 1, FlipUp ''p3'' 1 0])
      ''p1'' 1 1)) = [(''p2'', 0, 0)]"
proof -
  let ?s = "run board_AABC
      [RegisterPlayer ''p1'' None, RegisterPlayer ''p2'' None, RegisterPlayer ''p3'' None,
       FlipUp ''p1'' 0 0, FlipUp ''p2'' 0 0, FlipUp ''p1'' 0 1, FlipUp ''p3'' 1 0]"
  let ?p = "\<lparr>ident = ''p1'', firstCard = Some (0, 0), secondCard = Some (0, 1), flipCount = 2\<rparr>"
  have r: "reachable ?s" by (rule reachable_AABC)
  have p: "map_of (players ?s) ''p1'' = Some ?p" by code_simp
  have c: "firstCard ?p = Some (0, 0)" "secondCard ?p = Some (0, 1)"
    "((0::nat), (0::nat)) \<noteq> (0, 1)"
    by simp_all
  have h: "controllerAt ?s 0 0 = Inr (Some ''p1'')" "controllerAt ?s 0 1 = Inr (Some ''p1'')"
    by code_simp+
  have pa: "pictureAt ?s 0 0 = Inr (Some ''A'')" "pictureAt ?s 0 1 = Inr (Some ''A'')"
    by code_simp+
  have pe: "pictureAt ?s 0 0 = pictureAt ?s 0 1" by (simp only: pa)
  have d: "1 < rows ?s" "1 < cols ?s" by code_simp+
  have w: "waitingForControl ?s = [((0, 0), [''p2''])]" "woken ?s = []"
    "waiters_of ?s 0 0 = [(''p2'', 0, 0)]" "waiters_of ?s 0 1 = []"
    "waitingForControl (snd (flipUp ?s ''p1'' 1 1)) = []"
    by code_simp+
  from held_pair_removed[OF r p c h pe d] show ?thesis
    using r h pa w by (simp add: Let_def)
qed

text \<open>
  C2 as stated fails: player p1 completes the pair (0,0), (0,1) by rule 2-D, then
  \<^verbatim>\<open>flipDown\<close> takes (0,0) from its controller. The player's next call is a first flip, on
  (1,0); the cleanup removes (0,1), which the player still controls, and leaves the card at
  (0,0), which it does not.
\<close>

theorem held_pair_removed_counterexample:
  "(let a = run board_AABC [RegisterPlayer ''p1'' None, FlipUp ''p1'' 0 0];
        b1 = snd (flipUp a ''p1'' 0 1);
        s = snd (flipDown b1 0 0);
        b' = snd (flipUp s ''p1'' 1 0)
    in map_option (\<lambda>p. (firstCard p, secondCard p)) (map_of (players a) ''p1'') =
         Some (Some (0, 0), None) \<and>
       fst (flipUp a ''p1'' 0 1) = Done \<and>
       isFaceUp b1 0 0 = Inr True \<and> isFaceUp b1 0 1 = Inr True \<and>
       controllerAt b1 0 0 = Inr (Some ''p1'') \<and> controllerAt b1 0 1 = Inr (Some ''p1'') \<and>
       pictureAt b1 0 0 = Inr (Some ''A'') \<and> pictureAt b1 0 1 = Inr (Some ''A'') \<and>
       fst (flipDown b1 0 0) = Done \<and>
       map_option (\<lambda>p. (firstCard p, secondCard p)) (map_of (players s) ''p1'') =
         Some (Some (0, 0), Some (0, 1)) \<and>
       controllerAt s 0 0 = Inr None \<and>
       fst (flipUp s ''p1'' 1 0) = Done \<and>
       map_option (\<lambda>p. (firstCard p, secondCard p)) (map_of (players b') ''p1'') =
         Some (Some (1, 0), None) \<and>
       pictureAt b' 0 1 = Inr None \<and>
       pictureAt b' 0 0 = Inr (Some ''A'') \<and>
       pictureAt b' 0 0 \<noteq> Inr None)"
  by code_simp



text \<open>
  C4: \<^verbatim>\<open>flipDown\<close> takes the controller off a cell without waking the waiters parked on it.
  On the board of the cards A and B, player p1 turns the first card, player p2 asks for the
  same card and is parked, and \<^verbatim>\<open>flipDown\<close> of that card returns: the card is still on the
  board and has no controller, p2 is still in the queue of the cell, and nobody was woken.
\<close>

theorem flipDown_leaves_waiters_parked:
  "(case parseFromFile ''1x2\<newline>A\<newline>B\<newline>'' of
      Inl e \<Rightarrow> False
    | Inr b0 \<Rightarrow>
        let b1 = snd (registerPlayer b0 ''p1'' None);
            b2 = snd (registerPlayer b1 ''p2'' None);
            b3 = snd (flipUp b2 ''p1'' 0 0);
            b4 = snd (flipUp b3 ''p2'' 0 0);
            b5 = snd (flipDown b4 0 0)
        in fst (flipUp b3 ''p2'' 0 0) = Parked \<and>
           controllerAt b4 0 0 = Inr (Some ''p1'') \<and>
           map_of (waitingForControl b4) (0, 0) = Some [''p2''] \<and>
           fst (flipDown b4 0 0) = Done \<and>
           controllerAt b5 0 0 = Inr None \<and>
           pictureAt b5 0 0 = Inr (Some ''A'') \<and>
           map_of (waitingForControl b5) (0, 0) = Some [''p2''] \<and>
           woken b5 = [])"
  by code_simp

text \<open>
  C5: \<^verbatim>\<open>parseFromFile\<close> does not read the token \<^verbatim>\<open>none\<close> as an empty cell. The file of the one
  line \<^verbatim>\<open>none\<close> after the header parses to a board whose cell holds the picture \<^verbatim>\<open>none\<close>,
  face down and without controller; \<^verbatim>\<open>pictureAt\<close> returns that picture, not the empty cell.
\<close>

theorem parseFromFile_none_is_a_picture:
  "(case parseFromFile ''1x1\<newline>none\<newline>'' of
      Inl e \<Rightarrow> False
    | Inr b \<Rightarrow>
        pictureAt b 0 0 = Inr (Some ''none'') \<and> isFaceUp b 0 0 = Inr False \<and>
        controllerAt b 0 0 = Inr None)"
  by code_simp

text \<open>
  C6, as amended: for a file that \<^verbatim>\<open>parseFromFile\<close> accepts and whose header line is written
  as \<^verbatim>\<open>picturesDump\<close> writes it (digits, \<^verbatim>\<open>x\<close>, digits, no white space around them, no zero in
  front), the dump of the parsed board is the normalised text of the file.
\<close>

theorem picturesDump_parseFromFile:
  assumes "parseFromFile txt = Inr b"
    and "plain_header (hd (split_on LF (replace_cr (replace_crlf txt))))"
  shows "picturesDump b = normalised txt"
proof -
  let ?n = "replace_cr (replace_crlf txt)"
  let ?lines0 = "split_on LF ?n"
  from assms(1) obtain lines1 m1 m2 layout where
    l1: "lines1 = (if ?lines0 \<noteq> [] \<and> last ?lines0 = [] then butlast ?lines0 else ?lines0)"
    and ne: "lines1 \<noteq> []"
    and mh: "match_header (trim (hd lines1)) = Some (m1, m2)"
    and len: "length (tl lines1) = Number m1 * Number m2"
    and cc: "check_cards 0 (tl lines1) = Inr layout"
    and bd: "Board (Number m1) (Number m2) layout = Inr b"
    by (rule parseFromFile_Inr) (simp add: Let_def)
  have hd1: "hd lines1 = hd ?lines0"
    using l1 ne by (cases ?lines0) (auto split: if_splits)
  from assms(2) obtain k1 k2 where
    k: "match_header (hd lines1) = Some (k1, k2)" "trim (hd lines1) = hd lines1"
      "show_nat (Number k1) @ ''x'' @ show_nat (Number k2) = hd lines1"
    unfolding hd1[symmetric] by (rule plain_header_line)
  have km: "k1 = m1" "k2 = m2" using mh k(1,2) by simp_all
  have lay: "layout = map Some (tl lines1)" by (rule check_cards_layout[OF cc])
  have toks: "map token_of layout = tl lines1"
    unfolding lay by (simp add: token_of_def comp_def)
  have "picturesDump b =
        join [LF] ((show_nat (Number m1) @ ''x'' @ show_nat (Number m2)) # map token_of layout)
        @ [LF]"
    using len by (intro picturesDump_Board[OF bd]) (simp add: lay)
  also have "\<dots> = join [LF] (hd lines1 # tl lines1) @ [LF]"
    using k(3) km toks by simp
  also have "\<dots> = join [LF] lines1 @ [LF]" using ne by simp
  also have "\<dots> = normalised txt"
    unfolding normalised_def Let_def
    by (rule text_of_lines[OF refl l1 ne, symmetric])
  finally show ?thesis .
qed

theorem picturesDump_parseFromFile_witness:
  "parseFromFile ''2x1\<newline>A\<newline>B'' =
     Inr \<lparr>rows = 2, cols = 1, cards = [[Some ''A''], [Some ''B'']],
           faceUp = [[False], [False]], controller = [[None], [None]], players = [],
           waitingForControl = [], lingering = [], changeResolvers = [],
           woken = [], delivered = []\<rparr> \<and>
   plain_header (hd (split_on LF (replace_cr (replace_crlf ''2x1\<newline>A\<newline>B'')))) \<and>
   picturesDump \<lparr>rows = 2, cols = 1, cards = [[Some ''A''], [Some ''B'']],
           faceUp = [[False], [False]], controller = [[None], [None]], players = [],
           waitingForControl = [], lingering = [], changeResolvers = [],
           woken = [], delivered = []\<rparr> = ''2x1\<newline>A\<newline>B\<newline>''"
proof -
  have p: "parseFromFile ''2x1\<newline>A\<newline>B'' =
     Inr \<lparr>rows = 2, cols = 1, cards = [[Some ''A''], [Some ''B'']],
           faceUp = [[False], [False]], controller = [[None], [None]], players = [],
           waitingForControl = [], lingering = [], changeResolvers = [],
           woken = [], delivered = []\<rparr>"
    by code_simp
  have h: "plain_header (hd (split_on LF (replace_cr (replace_crlf ''2x1\<newline>A\<newline>B''))))"
    by code_simp
  have n: "normalised ''2x1\<newline>A\<newline>B'' = ''2x1\<newline>A\<newline>B\<newline>''"
    by code_simp
  show ?thesis
    using picturesDump_parseFromFile[OF p h] p h n by simp
qed

text \<open>
  C6 as stated fails: a header with a zero in front is accepted, and the dump writes the
  number without it.
\<close>

theorem picturesDump_parseFromFile_counterexample:
  "(case parseFromFile ''01x1\<newline>A\<newline>'' of
      Inl e \<Rightarrow> False
    | Inr b \<Rightarrow>
        picturesDump b = ''1x1\<newline>A\<newline>'' \<and>
        normalised ''01x1\<newline>A\<newline>'' = ''01x1\<newline>A\<newline>'' \<and>
        picturesDump b \<noteq> normalised ''01x1\<newline>A\<newline>'')"
  by code_simp

text \<open>
  C7, as amended: on a reachable board, a first flip of a registered player on an empty
  cell of the board fails with EmptySpace, and the board after the call is the board that
  \<^verbatim>\<open>cleanupPreviousPlay\<close> returns for that player: the cleanup of the previous play runs
  before the check of rule 1-A and its changes stay. For a player with no recorded cards
  and no lingering cards that is the board as it was before the call: grid, waiter queues,
  lingering lists and everything else.
\<close>

theorem flipUp_empty_first:
  assumes "reachable b" and "map_of (players b) k = Some p"
    and "firstCard p = None \<or> secondCard p \<noteq> None"
    and "row < rows b" "col < cols b" "pictureAt b row col = Inr None"
  shows "flipUp b k row col = (Threw EmptySpace, cleaned b k) \<and>
         (firstCard p = None \<and> secondCard p = None \<and>
          (map_of (lingering b) k = None \<or> map_of (lingering b) k = Some []) \<longrightarrow>
          cleaned b k = b)"
proof -
  have i: "inv b" by (rule reachable_inv[OF assms(1)])
  then have d: "dims_ok b" by (simp add: inv_def)
  have idp: "ident p = k"
    using i map_of_SomeD[OF assms(2)] by (auto simp: inv_def player_ok_def)
  have e: "cell (cards b) row col = Some None"
    using assms(6) cell_dims[OF d assms(4,5)] pictureAt_dims[OF d assms(4,5)] by simp
  have e1: "cell (cards (cleaned b k)) row col = Some None"
    unfolding cleaned_def by (rule cleanup_keeps_empty[OF e])
  have "flipUp b k row col = flipUp_first_rules (cleaned b k) k row col"
    unfolding cleaned_def by (rule flipUp_first_flip[OF i assms(2,4,5,3)])
  then have f: "flipUp b k row col = (Threw EmptySpace, cleaned b k)"
    using e1 by (simp add: flipUp_first_rules_def)
  have n: "cleaned b k = b"
    if "firstCard p = None" "secondCard p = None"
       "map_of (lingering b) k = None \<or> map_of (lingering b) k = Some []"
    using cleanup_nothing[of b k p] assms(2) that idp by (simp add: cleaned_def)
  show ?thesis using f n by blast
qed

theorem flipUp_empty_first_witness:
  "reachable (run board_AABC
     [RegisterPlayer ''p1'' None, RegisterPlayer ''p2'' None,
      FlipUp ''p1'' 0 0, FlipUp ''p1'' 0 1, FlipUp ''p1'' 1 0, FlipUp ''p1'' 0 0]) \<and>
   pictureAt (run board_AABC
     [RegisterPlayer ''p1'' None, RegisterPlayer ''p2'' None,
      FlipUp ''p1'' 0 0, FlipUp ''p1'' 0 1, FlipUp ''p1'' 1 0, FlipUp ''p1'' 0 0]) 0 0 = Inr None \<and>
   lingering (run board_AABC
     [RegisterPlayer ''p1'' None, RegisterPlayer ''p2'' None,
      FlipUp ''p1'' 0 0, FlipUp ''p1'' 0 1, FlipUp ''p1'' 1 0, FlipUp ''p1'' 0 0]) =
     [(''p1'', [(1, 0)])] \<and>
   isFaceUp (run board_AABC
     [RegisterPlayer ''p1'' None, RegisterPlayer ''p2'' None,
      FlipUp ''p1'' 0 0, FlipUp ''p1'' 0 1, FlipUp ''p1'' 1 0, FlipUp ''p1'' 0 0]) 1 0 = Inr True \<and>
   flipUp (run board_AABC
     [RegisterPlayer ''p1'' None, RegisterPlayer ''p2'' None,
      FlipUp ''p1'' 0 0, FlipUp ''p1'' 0 1, FlipUp ''p1'' 1 0, FlipUp ''p1'' 0 0]) ''p1'' 0 0 =
     (Threw EmptySpace, cleaned (run board_AABC
     [RegisterPlayer ''p1'' None, RegisterPlayer ''p2'' None,
      FlipUp ''p1'' 0 0, FlipUp ''p1'' 0 1, FlipUp ''p1'' 1 0, FlipUp ''p1'' 0 0]) ''p1'') \<and>
   isFaceUp (cleaned (run board_AABC
     [RegisterPlayer ''p1'' None, RegisterPlayer ''p2'' None,
      FlipUp ''p1'' 0 0, FlipUp ''p1'' 0 1, FlipUp ''p1'' 1 0, FlipUp ''p1'' 0 0]) ''p1'') 1 0 =
     Inr False \<and>
   lingering (cleaned (run board_AABC
     [RegisterPlayer ''p1'' None, RegisterPlayer ''p2'' None,
      FlipUp ''p1'' 0 0, FlipUp ''p1'' 0 1, FlipUp ''p1'' 1 0, FlipUp ''p1'' 0 0]) ''p1'') = [] \<and>
   flipUp (run board_AABC
     [RegisterPlayer ''p1'' None, RegisterPlayer ''p2'' None,
      FlipUp ''p1'' 0 0, FlipUp ''p1'' 0 1, FlipUp ''p1'' 1 0, FlipUp ''p1'' 0 0]) ''p2'' 0 0 =
     (Threw EmptySpace, run board_AABC
     [RegisterPlayer ''p1'' None, RegisterPlayer ''p2'' None,
      FlipUp ''p1'' 0 0, FlipUp ''p1'' 0 1, FlipUp ''p1'' 1 0, FlipUp ''p1'' 0 0])"
proof -
  let ?s = "run board_AABC
     [RegisterPlayer ''p1'' None, RegisterPlayer ''p2'' None,
      FlipUp ''p1'' 0 0, FlipUp ''p1'' 0 1, FlipUp ''p1'' 1 0, FlipUp ''p1'' 0 0]"
  let ?p = "\<lparr>ident = ''p1'', firstCard = None, secondCard = None, flipCount = 3\<rparr>"
  have r: "reachable ?s" by (rule reachable_AABC)
  have p1: "map_of (players ?s) ''p1'' = Some ?p" by code_simp
  have p2: "map_of (players ?s) ''p2'' = Some (new_Player ''p2'')" by code_simp
  have f1: "firstCard ?p = None \<or> secondCard ?p \<noteq> None" by simp
  have f2: "firstCard (new_Player ''p2'') = None \<or> secondCard (new_Player ''p2'') \<noteq> None"
    "firstCard (new_Player ''p2'') = None" "secondCard (new_Player ''p2'') = None"
    by (simp_all add: new_Player_def)
  have l: "map_of (lingering ?s) ''p2'' = None" by code_simp
  have d: "0 < rows ?s" "0 < cols ?s" by code_simp+
  have e: "pictureAt ?s 0 0 = Inr None" by code_simp
  have g: "lingering ?s = [(''p1'', [(1, 0)])]" "isFaceUp ?s 1 0 = Inr True"
    "isFaceUp (cleaned ?s ''p1'') 1 0 = Inr False" "lingering (cleaned ?s ''p1'') = []"
    by code_simp+
  show ?thesis
    using flipUp_empty_first[OF r p1 f1 d e] flipUp_empty_first[OF r p2 f2(1) d e]
      r e g f2(2,3) l
    by simp
qed

text \<open>
  C7 as stated fails: player p1 has a lingering card (its first card, given up when its
  second flip met an empty cell) and no recorded cards. Its next flip, a first flip on the
  empty cell, fails with EmptySpace after the cleanup has turned the lingering card face
  down and dropped the lingering list.
\<close>

theorem flipUp_empty_first_counterexample:
  "(let s = run board_AABC
              [RegisterPlayer ''p1'' None, FlipUp ''p1'' 0 0, FlipUp ''p1'' 0 1,
               FlipUp ''p1'' 1 0, FlipUp ''p1'' 0 0]
    in pictureAt s 0 0 = Inr None \<and>
       map_option firstCard (map_of (players s) ''p1'') = Some None \<and>
       isFaceUp s 1 0 = Inr True \<and>
       lingering s = [(''p1'', [(1, 0)])] \<and>
       fst (flipUp s ''p1'' 0 0) = Threw EmptySpace \<and>
       isFaceUp (snd (flipUp s ''p1'' 0 0)) 1 0 = Inr False \<and>
       lingering (snd (flipUp s ''p1'' 0 0)) = [] \<and>
       snd (flipUp s ''p1'' 0 0) \<noteq> s)"
  by code_simp




text \<open>
  C9: \<^verbatim>\<open>map\<close> is to fail with InvalidCard when the transform gives a picture that is empty or
  has white space, and its documentation says that the board remains consistent. The code
  diverges: on a board that satisfies its rep invariant, with a transform that gives the
  empty picture, \<^verbatim>\<open>map\<close> writes the empty picture into every card, then fails on the
  assertion of \<^verbatim>\<open>checkRep\<close>, which is no InvalidCard; the empty pictures stay on the board,
  whose rep invariant is now broken, and no watcher is notified.
\<close>

theorem map_board_leaves_bad_pictures:
  "(let s = run board_AABC [RegisterPlayer ''p1'' None, AddChangeWatcher ''p1'' 7];
        b' = snd (map_board s (\<lambda>pic. []))
    in checkRep s \<and>
       fst (map_board s (\<lambda>pic. [])) = Threw RepInvariantViolated \<and>
       (case fst (map_board s (\<lambda>pic. [])) of
          Threw (InvalidCard line) \<Rightarrow> False
        | _ \<Rightarrow> True) \<and>
       b' = s\<lparr>cards := [[Some [], Some []], [Some [], Some []]]\<rparr> \<and>
       pictureAt b' 0 0 = Inr (Some []) \<and>
       \<not> checkRep b' \<and>
       changeResolvers b' = [(''p1'', [7])] \<and> delivered b' = [])"
  by code_simp

text \<open>
  C10: the result of \<^verbatim>\<open>registerPlayer\<close> does not depend on the display name: for every board,
  every id and any two display names (given or left out), the two calls return the same
  player or the same error and leave the same board.
\<close>

theorem registerPlayer_displayName_irrelevant:
  "registerPlayer b i d1 = registerPlayer b i d2"
  by (simp add: registerPlayer_def)

end
